theory Spec2Isabelle
  imports Complex_Main "HOL-Library.AList" "HOL-Library.Char_ord" "HOL-Library.List_Lexorder"
begin

section \<open>The job registry of \<open>src/pipefunc/mcp.py\<close>\<close>

text \<open>
  Python exceptions are values. A function of the source that can raise returns
  \<open>py_error + 'a\<close>, with \<open>Inl\<close> for the exception that leaves the function.
\<close>

datatype py_error =
    CancelledError
  | InvalidStateError
  | AssertionError
  | TaskException string
  | KeyError string
  | RuntimeError string
  | ZeroDivisionError
  | FileNotFoundError string
  | JSONDecodeError string
  | UnboundLocalError string
  | LoadError string

subsection \<open>Python floats\<close>

text \<open>
  A finite Python float (an IEEE 754 binary64) is the rational number it denotes. An
  arithmetic operation computes the exact result and rounds it to the nearest binary64,
  ties to even; magnitudes that overflow do not arise from the counts at hand and are
  not modelled.
\<close>

type_synonym pyfloat = rat

fun log2_floor :: "nat \<Rightarrow> nat" where
  "log2_floor n = (if n < 2 then 0 else Suc (log2_floor (n div 2)))"

declare log2_floor.simps [simp del]

definition round_half_even :: "rat \<Rightarrow> int" where
  "round_half_even q =
     (let n = \<lfloor>q\<rfloor>; r = q - of_int n
      in if r < 1 / 2 then n else if 1 / 2 < r then n + 1 else if even n then n else n + 1)"

definition pow2 :: "int \<Rightarrow> rat" where
  "pow2 k = (if 0 \<le> k then 2 ^ nat k else 1 / 2 ^ nat (- k))"

text \<open>The binary exponent of a positive rational \<open>x\<close>: the \<open>e\<close> with
  \<open>2\<^sup>e \<le> x < 2\<^sup>e\<^sup>+\<^sup>1\<close>.\<close>

definition exponent :: "rat \<Rightarrow> int" where
  "exponent x =
     (if 1 \<le> x then int (log2_floor (nat \<lfloor>x\<rfloor>))
      else - int (Suc (log2_floor (nat (\<lceil>1 / x\<rceil> - 1)))))"

text \<open>Rounding to binary64: 53 significant bits, and steps of \<open>2\<^sup>-\<^sup>1\<^sup>0\<^sup>7\<^sup>4\<close> in the
  subnormal range.\<close>

definition float_round :: "rat \<Rightarrow> pyfloat" where
  "float_round x =
     (if x = 0 then 0
      else let a = \<bar>x\<bar>;
               s = max (exponent a - 52) (- 1074);
               m = of_int (round_half_even (a / pow2 s)) * pow2 s
           in if x < 0 then - m else m)"

text \<open>\<open>a / b\<close> on Python integers (true division, correctly rounded), and
  \<open>x - y\<close> on floats.\<close>

definition truediv :: "nat \<Rightarrow> nat \<Rightarrow> py_error + pyfloat" where
  "truediv a b = (if b = 0 then Inl ZeroDivisionError else Inr (float_round (of_nat a / of_nat b)))"

definition float_sub :: "pyfloat \<Rightarrow> pyfloat \<Rightarrow> pyfloat" where
  "float_sub x y = float_round (x - y)"

subsection \<open>The background task (an \<open>asyncio.Task\<close>)\<close>

text \<open>
  The value of one pipeline output: a plain Python object (shown by its rendering), or
  an array, which has \<open>tolist()\<close> and a \<open>shape\<close>.
\<close>

datatype output_value = Plain string | NdArray "nat list" string

type_synonym pipeline_result = "(string \<times> output_value) list"

text \<open>
  The task is the external handle of the job. Its interface is the documented one of
  \<open>asyncio.Task\<close>: a task is pending, or done with a result, done with an exception
  (kept as its \<open>str\<close>), or done because it was cancelled. \<open>cancel()\<close> on a pending task
  only records the request; the event loop ends the task later.
\<close>

datatype task_state = Pending | Finished pipeline_result | Raised string | Cancelled

record task =
  task_state :: task_state
  must_cancel :: bool

definition task_done :: "task \<Rightarrow> bool" where
  "task_done t = (task_state t \<noteq> Pending)"

definition cancel :: "task \<Rightarrow> task" where
  "cancel t = (if task_done t then t else t \<lparr> must_cancel := True \<rparr>)"

text \<open>\<open>task.exception()\<close>: the exception of a done task or \<open>None\<close>; it raises for a
  cancelled and for a pending task.\<close>

definition exception :: "task \<Rightarrow> py_error + string option" where
  "exception t =
     (case task_state t of
        Pending \<Rightarrow> Inl InvalidStateError
      | Finished r \<Rightarrow> Inr None
      | Raised e \<Rightarrow> Inr (Some e)
      | Cancelled \<Rightarrow> Inl CancelledError)"

text \<open>\<open>task.result()\<close>: the result of a done task; it re-raises the task's exception.\<close>

definition result :: "task \<Rightarrow> py_error + pipeline_result" where
  "result t =
     (case task_state t of
        Pending \<Rightarrow> Inl InvalidStateError
      | Finished r \<Rightarrow> Inr r
      | Raised e \<Rightarrow> Inl (TaskException e)
      | Cancelled \<Rightarrow> Inl CancelledError)"

subsection \<open>The data of a job\<close>

text \<open>One entry of the runner's \<open>progress_dict\<close>; \<open>elapsed_time()\<close> and
  \<open>remaining_time(...)\<close> are taken as their results.\<close>

record Status =
  progress :: pyfloat
  n_completed :: nat
  n_total :: nat
  n_failed :: nat
  elapsed_time :: "pyfloat option"
  remaining_time :: "pyfloat option"

record AsyncMap =
  task :: task
  runner_progress :: "(string \<times> Status) list option"

text \<open>\<open>started_at\<close> is kept as its \<open>isoformat()\<close> rendering, the only way the source
  reads it.\<close>

record JobInfo =
  runner :: AsyncMap
  started_at :: string
  run_folder :: string
  status :: string
  pipeline_name :: string

text \<open>The global \<open>job_registry\<close>: a Python dict, which keeps insertion order, as an
  association list with unique keys.\<close>

type_synonym registry = "(string \<times> JobInfo) list"

record server =
  job_registry :: registry
  ctx_info :: "string list"

definition DEFAULT_PIPELINE_NAME :: string where
  "DEFAULT_PIPELINE_NAME = ''Unnamed Pipeline''"

text \<open>Python's \<open>x or d\<close> on an optional string: \<open>None\<close> and the empty string are falsy.\<close>

definition or_else :: "string option \<Rightarrow> string \<Rightarrow> string" where
  "or_else x d = (case x of None \<Rightarrow> d | Some s \<Rightarrow> if s = [] then d else s)"

subsection \<open>\<open>_execute_pipeline_async\<close>\<close>

record launch_response =
  lr_job_id :: string
  lr_run_folder :: string

text \<open>\<open>repr\<close> of the pipeline's name, for names that need no escaping.\<close>

definition repr_name :: "string option \<Rightarrow> string" where
  "repr_name name =
     (case name of None \<Rightarrow> ''None'' | Some n \<Rightarrow> [CHR 0x27] @ n @ [CHR 0x27])"

text \<open>
  The outcomes of \<open>uuid.uuid4()\<close>, \<open>datetime.now\<close> and \<open>pipeline.map_async\<close> are
  parameters: \<open>job_id\<close>, \<open>now\<close> and \<open>async_map\<close>; \<open>name\<close> is \<open>pipeline.name\<close>.
  The messages of \<open>ctx.info\<close> are collected in \<open>ctx_info\<close>.
\<close>

definition execute_pipeline_async ::
  "string option \<Rightarrow> string \<Rightarrow> string \<Rightarrow> AsyncMap \<Rightarrow> string option \<Rightarrow> server
    \<Rightarrow> launch_response \<times> server" where
  "execute_pipeline_async name job_id now async_map run_folder_arg s =
     (let actual_run_folder = or_else run_folder_arg (''runs/job_'' @ job_id);
          info1 = ''Starting async pipeline pipeline.name='' @ repr_name name
                    @ '' with job_id='' @ job_id @ '' and run_folder='' @ actual_run_folder;
          job = \<lparr> runner = async_map, started_at = now, run_folder = actual_run_folder,
                  status = ''running'', pipeline_name = or_else name DEFAULT_PIPELINE_NAME \<rparr>;
          info2 = ''Started async job '' @ job_id @ '' in folder '' @ actual_run_folder
      in (\<lparr> lr_job_id = job_id, lr_run_folder = actual_run_folder \<rparr>,
          \<lparr> job_registry = AList.update job_id job (job_registry s),
            ctx_info = ctx_info s @ [info1, info2] \<rparr>))"

subsection \<open>\<open>_check_job_status\<close>\<close>

record progress_entry =
  pe_progress :: pyfloat
  pe_n_completed :: nat
  pe_n_total :: nat
  pe_n_failed :: nat
  pe_elapsed_time :: "pyfloat option"
  pe_remaining_time :: "pyfloat option"

record output_entry =
  oe_output :: string
  oe_shape :: "nat list option"

text \<open>The dict \<open>result_info\<close>; its key \<open>results\<close> is absent (\<open>None\<close> here) unless the
  source adds it.\<close>

record result_info =
  ri_job_id :: string
  ri_pipeline_name :: string
  ri_status :: string
  ri_progress :: "(string \<times> progress_entry) list"
  ri_run_folder :: string
  ri_started_at :: string
  ri_error :: "string option"
  ri_results :: "(string \<times> output_entry) list option"

datatype check_response = ErrorDict string | ResultInfo result_info

definition progress_entry_of :: "Status \<Rightarrow> progress_entry" where
  "progress_entry_of st =
     \<lparr> pe_progress = progress st, pe_n_completed = n_completed st, pe_n_total = n_total st,
       pe_n_failed = n_failed st, pe_elapsed_time = elapsed_time st,
       pe_remaining_time = remaining_time st \<rparr>"

text \<open>The loop that fills a dict from the items of another one.\<close>

fun dict_of_items :: "('a \<Rightarrow> 'b) \<Rightarrow> (string \<times> 'a) list \<Rightarrow> (string \<times> 'b) list
    \<Rightarrow> (string \<times> 'b) list" where
  "dict_of_items f [] acc = acc"
| "dict_of_items f ((k, v) # kvs) acc = dict_of_items f kvs (AList.update k (f v) acc)"

definition output_entry_of :: "output_value \<Rightarrow> output_entry" where
  "output_entry_of v =
     (case v of
        Plain x \<Rightarrow> \<lparr> oe_output = x, oe_shape = None \<rparr>
      | NdArray sh l \<Rightarrow> \<lparr> oe_output = l, oe_shape = Some sh \<rparr>)"

definition check_job_status :: "registry \<Rightarrow> string \<Rightarrow> py_error + check_response" where
  "check_job_status reg job_id =
     (case map_of reg job_id of
        None \<Rightarrow> Inr (ErrorDict ''Job not found'')
      | Some job \<Rightarrow>
          let t = task (runner job);
              is_done = task_done t
          in (case runner_progress (runner job) of
                None \<Rightarrow> Inl AssertionError
              | Some progress_dict \<Rightarrow>
                  let progress_info = dict_of_items progress_entry_of progress_dict []
                  in (case (if is_done then exception t else Inr None) of
                        Inl e \<Rightarrow> Inl e
                      | Inr exc \<Rightarrow>
                          let result_info =
                                \<lparr> ri_job_id = job_id,
                                  ri_pipeline_name = pipeline_name job,
                                  ri_status = (if is_done then ''completed'' else ''running''),
                                  ri_progress = progress_info,
                                  ri_run_folder = run_folder job,
                                  ri_started_at = started_at job,
                                  ri_error = exc,
                                  ri_results = None \<rparr>
                          in if is_done \<and> exc = None
                             then (case result t of
                                     Inl e \<Rightarrow> Inl e
                                   | Inr pipeline_result \<Rightarrow>
                                       Inr (ResultInfo (result_info
                                         \<lparr> ri_results :=
                                             Some (dict_of_items output_entry_of pipeline_result []) \<rparr>)))
                             else Inr (ResultInfo result_info))))"

subsection \<open>\<open>_cancel_job\<close>\<close>

text \<open>The dicts that \<open>_cancel_job\<close> returns; an absent key is \<open>None\<close>.\<close>

record cancel_response =
  cr_error :: "string option"
  cr_status :: "string option"
  cr_job_id :: "string option"

definition cancel_job :: "server \<Rightarrow> string \<Rightarrow> cancel_response \<times> server" where
  "cancel_job s job_id =
     (case map_of (job_registry s) job_id of
        None \<Rightarrow> (\<lparr> cr_error = Some ''Job not found'', cr_status = None, cr_job_id = None \<rparr>, s)
      | Some job \<Rightarrow>
          let t = task (runner job)
          in if \<not> task_done t
             then (\<lparr> cr_error = None, cr_status = Some ''cancelled'', cr_job_id = Some job_id \<rparr>,
                   \<lparr> job_registry =
                       AList.update job_id
                         (job \<lparr> runner := (runner job) \<lparr> task := cancel t \<rparr>,
                                status := ''cancelled'' \<rparr>)
                         (job_registry s),
                     ctx_info = ctx_info s @ [''Cancelled job '' @ job_id] \<rparr>)
             else (\<lparr> cr_error = Some ''Job not found or already completed'', cr_status = None,
                     cr_job_id = Some job_id \<rparr>, s))"

subsection \<open>\<open>_list_jobs\<close>\<close>

record job_info =
  ji_job_id :: string
  ji_pipeline_name :: string
  ji_status :: string
  ji_run_folder :: string
  ji_started_at :: string
  ji_has_error :: bool

record jobs_listing =
  jobs :: "job_info list"
  jobs_total_count :: nat

fun list_jobs_loop :: "registry \<Rightarrow> job_info list \<Rightarrow> py_error + job_info list" where
  "list_jobs_loop [] jobs_info = Inr jobs_info"
| "list_jobs_loop ((job_id, job) # rest) jobs_info =
     (let t = task (runner job);
          is_done = task_done t
      in (case (if is_done then exception t else Inr None) of
            Inl e \<Rightarrow> Inl e
          | Inr exc \<Rightarrow>
              list_jobs_loop rest
                (jobs_info @
                 [\<lparr> ji_job_id = job_id, ji_pipeline_name = pipeline_name job,
                    ji_status = status job, ji_run_folder = run_folder job,
                    ji_started_at = started_at job,
                    ji_has_error = (is_done \<and> exc \<noteq> None) \<rparr>])))"

definition list_jobs :: "registry \<Rightarrow> py_error + jobs_listing" where
  "list_jobs reg =
     (if reg = [] then Inr \<lparr> jobs = [], jobs_total_count = 0 \<rparr>
      else (case list_jobs_loop reg [] of
              Inl e \<Rightarrow> Inl e
            | Inr jobs_info \<Rightarrow> Inr \<lparr> jobs = jobs_info, jobs_total_count = length jobs_info \<rparr>))"

subsection \<open>The life of the registry\<close>

text \<open>
  What can happen to the registry: a launch, a cancellation, and the event loop ending a
  pending task. \<open>uuid4\<close> is taken never to repeat an identifier, so a launch with a
  known \<open>job_id\<close> is no step. A task ends once, and ends as cancelled only after a
  \<open>cancel()\<close>. The steps allow more than the engine may do: a task whose cancellation
  was requested may here still end with a result or with an exception of its own, as
  the contract of \<open>asyncio.Task\<close> permits. What holds after every such step holds of
  the program; a run of these steps alone is not yet shown to be one the program can
  make.
\<close>

datatype event =
    Launch "string option" string string AsyncMap "string option"
  | Cancel string
  | TaskEnds string task_state

definition set_task_state :: "JobInfo \<Rightarrow> task_state \<Rightarrow> JobInfo" where
  "set_task_state job outcome =
     job \<lparr> runner := (runner job) \<lparr> task := (task (runner job)) \<lparr> task_state := outcome \<rparr> \<rparr> \<rparr>"

fun step :: "server \<Rightarrow> event \<Rightarrow> server option" where
  "step s (Launch name job_id now async_map run_folder_arg) =
     (if job_id \<in> fst ` set (job_registry s) then None
      else Some (snd (execute_pipeline_async name job_id now async_map run_folder_arg s)))"
| "step s (Cancel job_id) = Some (snd (cancel_job s job_id))"
| "step s (TaskEnds job_id outcome) =
     (case map_of (job_registry s) job_id of
        None \<Rightarrow> None
      | Some job \<Rightarrow>
          if task_done (task (runner job)) then None
          else if outcome = Pending then None
          else if outcome = Cancelled \<and> \<not> must_cancel (task (runner job)) then None
          else Some (s \<lparr> job_registry :=
                 AList.update job_id (set_task_state job outcome) (job_registry s) \<rparr>))"

fun run :: "server \<Rightarrow> event list \<Rightarrow> server option" where
  "run s [] = Some s"
| "run s (ev # evs) = (case step s ev of None \<Rightarrow> None | Some s' \<Rightarrow> run s' evs)"

definition initial :: server where
  "initial = \<lparr> job_registry = [], ctx_info = [] \<rparr>"

text \<open>
  Modelled from the spec: the execution engine behind \<open>pipeline.map_async\<close> (the
  coroutine of the task) is not in the sources at hand. Its cancellation is
  cooperative: after \<open>cancel()\<close> the execution stops at its next checkpoint and exits
  early. So a task whose cancellation was requested ends as cancelled, which is also
  what \<open>asyncio\<close> does with a coroutine that lets the \<open>CancelledError\<close> pass. The
  source has no \<open>await\<close> between \<open>task.done()\<close> and \<open>task.cancel()\<close>, so the task
  cannot end between the two.
\<close>

fun honours_cancel :: "server \<Rightarrow> event \<Rightarrow> bool" where
  "honours_cancel s (TaskEnds job_id outcome) =
     (case map_of (job_registry s) job_id of
        None \<Rightarrow> True
      | Some job \<Rightarrow> if must_cancel (task (runner job)) then outcome = Cancelled else True)"
| "honours_cancel s (Launch name job_id now async_map run_folder_arg) = True"
| "honours_cancel s (Cancel job_id) = True"

fun run_honoured :: "server \<Rightarrow> event list \<Rightarrow> server option" where
  "run_honoured s [] = Some s"
| "run_honoured s (ev # evs) =
     (if honours_cancel s ev
      then (case step s ev of None \<Rightarrow> None | Some s' \<Rightarrow> run_honoured s' evs)
      else None)"

text \<open>The status that \<open>list_jobs\<close> and \<open>check_job_status\<close> report for one job.\<close>

definition listed_status :: "registry \<Rightarrow> string \<Rightarrow> string option" where
  "listed_status reg job_id =
     (case list_jobs reg of
        Inl e \<Rightarrow> None
      | Inr l \<Rightarrow> map_option ji_status (find (\<lambda>j. ji_job_id j = job_id) (jobs l)))"

definition checked_status :: "registry \<Rightarrow> string \<Rightarrow> string option" where
  "checked_status reg job_id =
     (case check_job_status reg job_id of
        Inr (ResultInfo r) \<Rightarrow> Some (ri_status r)
      | _ \<Rightarrow> None)"

section \<open>Reading runs back from disk\<close>

subsection \<open>\<open>_progress_info_from_disk\<close>\<close>

text \<open>One path that \<open>folder.rglob("*")\<close> yields.\<close>

record file_stat =
  is_file :: bool
  st_size :: nat

text \<open>
  A \<open>FileArray\<close>, by what the source reads of it. A dimension of the shape that is not
  resolved yet is \<open>None\<close>. \<open>mask_linear()\<close> has one flag per linear position, \<open>True\<close>
  where the value is missing (the mask of a masked array).
\<close>

record FileArray =
  shape :: "nat option list"
  mask_linear :: "bool list"
  folder :: "file_stat list"

text \<open>Modelled from the spec: \<open>shape_is_resolved\<close> of \<open>pipefunc.map._shapes\<close> is not
  in the sources at hand; a shape is resolved when all its dimensions are known.\<close>

definition shape_is_resolved :: "nat option list \<Rightarrow> bool" where
  "shape_is_resolved sh = list_all (\<lambda>d. d \<noteq> None) sh"

text \<open>Modelled from the spec: the property \<open>size\<close> of a storage array is not in the
  sources at hand; the total count is the product of the dimensions.\<close>

definition array_size :: "FileArray \<Rightarrow> nat" where
  "array_size data = prod_list (List.map_filter id (shape data))"

text \<open>What \<open>store[output_name]\<close> can be: a \<open>FileArray\<close>, another \<open>StorageBase\<close>, a
  \<open>Path\<close> (with its size when it exists), or anything else (by its type's name).\<close>

datatype store_data =
    StorageFileArray FileArray
  | StorageOther string
  | PathData "nat option"
  | Unrecognised string

datatype progress_value = Fraction pyfloat | Unknown

record output_info =
  oi_progress :: progress_value
  oi_complete :: bool
  oi_bytes :: nat

record RunInfo =
  all_output_names :: "string list"
  init_store :: "(string \<times> store_data) list"

text \<open>Python's \<open>sum\<close> of a list of booleans.\<close>

definition sum_bools :: "bool list \<Rightarrow> nat" where
  "sum_bools bs = length (filter id bs)"

definition nbytes_of :: "file_stat list \<Rightarrow> nat" where
  "nbytes_of fs = sum_list (map st_size (filter is_file fs))"

text \<open>The body of the loop up to \<open>complete = ...\<close>: the progress and the bytes of one
  output. The progress of an array is \<open>1.0 - sum(data.mask_linear()) / size\<close>, in
  floats; dividing by a size of zero raises.\<close>

definition output_progress :: "store_data \<Rightarrow> py_error + (progress_value \<times> nat)" where
  "output_progress data =
     (case data of
        StorageFileArray fa \<Rightarrow>
          if shape_is_resolved (shape fa)
          then (case truediv (sum_bools (mask_linear fa)) (array_size fa) of
                  Inl e \<Rightarrow> Inl e
                | Inr q \<Rightarrow> Inr (Fraction (float_sub 1 q), nbytes_of (folder fa)))
          else Inr (Unknown, nbytes_of (folder fa))
      | StorageOther cls \<Rightarrow> Inl AssertionError
      | PathData st \<Rightarrow>
          (case st of
             Some sz \<Rightarrow> Inr (Fraction 1, sz)
           | None \<Rightarrow> Inr (Fraction 0, 0))
      | Unrecognised ty \<Rightarrow> Inl (RuntimeError (''Should not happen: '' @ ty)))"

fun progress_info_loop :: "(string \<times> store_data) list \<Rightarrow> string list
    \<Rightarrow> (string \<times> output_info) list \<Rightarrow> bool
    \<Rightarrow> py_error + ((string \<times> output_info) list \<times> bool)" where
  "progress_info_loop store [] outputs all_complete = Inr (outputs, all_complete)"
| "progress_info_loop store (output_name # names) outputs all_complete =
     (case map_of store output_name of
        None \<Rightarrow> Inl (KeyError output_name)
      | Some data \<Rightarrow>
          (case output_progress data of
             Inl e \<Rightarrow> Inl e
           | Inr (progress_v, nbytes) \<Rightarrow>
               let complete = (progress_v = Fraction 1)
               in progress_info_loop store names
                    (AList.update output_name
                       \<lparr> oi_progress = progress_v, oi_complete = complete, oi_bytes = nbytes \<rparr>
                       outputs)
                    (all_complete \<and> complete)))"

definition progress_info_from_disk ::
  "RunInfo \<Rightarrow> py_error + ((string \<times> output_info) list \<times> bool)" where
  "progress_info_from_disk run_info =
     progress_info_loop (init_store run_info) (all_output_names run_info) [] True"

subsection \<open>The file system under a runs folder\<close>

text \<open>
  The \<open>run_info.json\<close> of a run folder, by what the source does with it: the
  \<open>isoformat()\<close> of its modification time, what \<open>json.loads\<close> makes of its text
  (\<open>None\<close> when it raises, else the value under \<open>pipefunc_version\<close>, if any), and what
  \<open>RunInfo.load\<close> makes of the folder (\<open>None\<close> when it raises).
\<close>

record run_info_file =
  mtime_isoformat :: string
  json_loads :: "string option option"
  RunInfo_load :: "RunInfo option"

text \<open>One entry that \<open>iterdir()\<close> yields, in the order it yields them.\<close>

record dir_entry =
  path :: string
  is_dir :: bool
  run_info :: "run_info_file option"

datatype fs_node = Missing | NotADirectory | Directory "dir_entry list"

text \<open>\<open>RunInfo.load(run_folder)\<close>, read off the directory listing.\<close>

definition load :: "dir_entry list \<Rightarrow> string \<Rightarrow> py_error + RunInfo" where
  "load entries run_folder_str =
     (case find (\<lambda>d. path d = run_folder_str) entries of
        None \<Rightarrow> Inl (FileNotFoundError run_folder_str)
      | Some d \<Rightarrow>
          (case run_info d of
             None \<Rightarrow> Inl (FileNotFoundError run_folder_str)
           | Some f \<Rightarrow>
               (case RunInfo_load f of
                  None \<Rightarrow> Inl (LoadError run_folder_str)
                | Some ri \<Rightarrow> Inr ri)))"

text \<open>
  \<open>json.loads(run_info_path.read_text())\<close> followed by
  \<open>.get("pipefunc_version", "unknown")\<close>. The variable \<open>run_info_path\<close> is the one the
  first loop left behind; it is given by the folder it belongs to, \<open>None\<close> while unbound.
\<close>

definition read_pipefunc_version :: "dir_entry list \<Rightarrow> string option \<Rightarrow> py_error + string" where
  "read_pipefunc_version entries run_info_path =
     (case run_info_path of
        None \<Rightarrow> Inl (UnboundLocalError ''run_info_path'')
      | Some p \<Rightarrow>
          (case find (\<lambda>d. path d = p) entries of
             None \<Rightarrow> Inl (FileNotFoundError p)
           | Some d \<Rightarrow>
               (case run_info d of
                  None \<Rightarrow> Inl (FileNotFoundError p)
                | Some f \<Rightarrow>
                    (case json_loads f of
                       None \<Rightarrow> Inl (JSONDecodeError p)
                     | Some None \<Rightarrow> Inr ''unknown''
                     | Some (Some v) \<Rightarrow> Inr v))))"

subsection \<open>\<open>_list_historical_runs\<close>\<close>

text \<open>A \<open>_RunEntry\<close>; a key that was not set yet is \<open>None\<close>.\<close>

record RunEntry =
  last_modified :: string
  entry_run_folder :: string
  all_complete :: "bool option"
  total_outputs :: "nat option"
  completed_outputs :: "nat option"
  pipefunc_version :: "string option"

record Runs =
  runs :: "RunEntry list"
  total_count :: nat
  runs_folder :: string
  scanned_directories :: nat
  error :: "string option"

text \<open>The first loop: the entries so far, the count of scanned directories and the
  variable \<open>run_info_path\<close>.\<close>

fun scan_loop :: "dir_entry list \<Rightarrow> RunEntry list \<times> nat \<times> string option
    \<Rightarrow> RunEntry list \<times> nat \<times> string option" where
  "scan_loop [] st = st"
| "scan_loop (d # ds) (rs, scanned, run_info_path) =
     (if \<not> is_dir d then scan_loop ds (rs, scanned + 1, run_info_path)
      else (case run_info d of
              None \<Rightarrow> scan_loop ds (rs, scanned + 1, Some (path d))
            | Some f \<Rightarrow>
                scan_loop ds
                  (rs @ [\<lparr> last_modified = mtime_isoformat f, entry_run_folder = path d,
                           all_complete = None, total_outputs = None,
                           completed_outputs = None, pipefunc_version = None \<rparr>],
                   scanned + 1, Some (path d))))"

text \<open>\<open>list.sort(key=..., reverse=True)\<close>: a stable sort that keeps the order of equal
  keys, which Python does by reversing, sorting and reversing again.\<close>

definition sort_reverse :: "RunEntry list \<Rightarrow> RunEntry list" where
  "sort_reverse rs = rev (sort_key last_modified (rev rs))"

definition truncate_runs :: "int option \<Rightarrow> RunEntry list \<Rightarrow> RunEntry list" where
  "truncate_runs max_runs rs =
     (case max_runs of
        None \<Rightarrow> rs
      | Some n \<Rightarrow> if n > 0 then take (nat n) rs else rs)"

text \<open>
  The body of the second loop for one entry: the entry as the loop leaves it, and what
  it adds to \<open>total_count\<close>. When \<open>RunInfo.load\<close> raises, the \<open>except\<close> branch goes on
  to the next entry and this one stays as it is.
\<close>

definition summarize_entry :: "dir_entry list \<Rightarrow> string option \<Rightarrow> RunEntry
    \<Rightarrow> py_error + (RunEntry \<times> nat)" where
  "summarize_entry entries run_info_path run_entry =
     (case load entries (entry_run_folder run_entry) of
        Inl e \<Rightarrow> Inr (run_entry, 0)
      | Inr ri \<Rightarrow>
          (case read_pipefunc_version entries run_info_path of
             Inl e \<Rightarrow> Inl e
           | Inr version \<Rightarrow>
               (case progress_info_from_disk ri of
                  Inl e \<Rightarrow> Inl e
                | Inr (outputs, all_complete_v) \<Rightarrow>
                    Inr (run_entry \<lparr> all_complete := Some all_complete_v,
                                    total_outputs := Some (length outputs),
                                    completed_outputs :=
                                      Some (length (filter (\<lambda>output. oi_complete (snd output)) outputs)),
                                    pipefunc_version := Some version \<rparr>,
                         1))))"

text \<open>The second loop: the entries already visited (updated in place by the source)
  and \<open>total_count\<close>.\<close>

fun summarize_loop :: "dir_entry list \<Rightarrow> string option \<Rightarrow> RunEntry list
    \<Rightarrow> RunEntry list \<times> nat \<Rightarrow> py_error + (RunEntry list \<times> nat)" where
  "summarize_loop entries run_info_path [] (visited, count) = Inr (visited, count)"
| "summarize_loop entries run_info_path (run_entry # rest) (visited, count) =
     (case summarize_entry entries run_info_path run_entry of
        Inl e \<Rightarrow> Inl e
      | Inr (run_entry', k) \<Rightarrow>
          summarize_loop entries run_info_path rest (visited @ [run_entry'], count + k))"

definition list_historical_runs ::
  "(string \<Rightarrow> fs_node) \<Rightarrow> string \<Rightarrow> int option \<Rightarrow> py_error + Runs" where
  "list_historical_runs fs folder_str max_runs =
     (let runs0 = \<lparr> runs = [], total_count = 0, runs_folder = folder_str,
                    scanned_directories = 0, error = None \<rparr>
      in (case fs folder_str of
            Missing \<Rightarrow>
              Inr (runs0 \<lparr> error := Some (''Folder '' @ [CHR 0x27] @ folder_str @ [CHR 0x27]
                                          @ '' does not exist'') \<rparr>)
          | NotADirectory \<Rightarrow>
              Inr (runs0 \<lparr> error := Some ([CHR 0x27] @ folder_str @ [CHR 0x27]
                                          @ '' is not a directory'') \<rparr>)
          | Directory entries \<Rightarrow>
              (case scan_loop entries ([], 0, None) of
                 (found, scanned, run_info_path) \<Rightarrow>
                   (case summarize_loop entries run_info_path
                           (truncate_runs max_runs (sort_reverse found)) ([], 0) of
                      Inl e \<Rightarrow> Inl e
                    | Inr (visited, count) \<Rightarrow>
                        Inr (runs0 \<lparr> runs := visited, total_count := count,
                                     scanned_directories := scanned \<rparr>)))))"

section \<open>Concrete inputs\<close>

text \<open>The positions of a completion mask that are filled: those not flagged as missing.\<close>

definition filled_count :: "bool list \<Rightarrow> nat" where
  "filled_count flags = length (filter (\<lambda>b. \<not> b) flags)"

text \<open>A job whose task has finished with one array output.\<close>

definition finished_job :: JobInfo where
  "finished_job =
     \<lparr> runner = \<lparr> task = \<lparr> task_state = Finished [(''y'', NdArray [2] ''[4, 6]'')],
                           must_cancel = False \<rparr>,
                  runner_progress = Some [] \<rparr>,
       started_at = ''2024-05-01T10:00:00+00:00'', run_folder = ''runs/job_j1'',
       status = ''running'', pipeline_name = ''Unnamed Pipeline'' \<rparr>"

text \<open>A run with a single-file output that exists, one that does not, an array output
  of five positions of which two are filled, and an array whose shape is not resolved.
  The progress of the array of five is the float \<open>1.0 - 3 / 5\<close>, which Python prints
  as \<open>0.4\<close>.\<close>

definition example_y :: FileArray where
  "example_y =
     \<lparr> shape = [Some 5], mask_linear = [False, False, True, True, True],
       folder = [\<lparr> is_file = True, st_size = 64 \<rparr>, \<lparr> is_file = False, st_size = 4096 \<rparr>,
                 \<lparr> is_file = True, st_size = 36 \<rparr>] \<rparr>"

definition example_z :: FileArray where
  "example_z =
     \<lparr> shape = [Some 5, None], mask_linear = [],
       folder = [\<lparr> is_file = True, st_size = 7 \<rparr>] \<rparr>"

definition example_run :: RunInfo where
  "example_run =
     \<lparr> all_output_names = [''total'', ''pending'', ''y'', ''z''],
       init_store =
         [(''total'', PathData (Some 120)),
          (''pending'', PathData None),
          (''y'', StorageFileArray example_y),
          (''z'', StorageFileArray example_z)] \<rparr>"

definition example_outputs :: "(string \<times> output_info) list" where
  "example_outputs =
     [(''total'', \<lparr> oi_progress = Fraction 1, oi_complete = True, oi_bytes = 120 \<rparr>),
      (''pending'', \<lparr> oi_progress = Fraction 0, oi_complete = False, oi_bytes = 0 \<rparr>),
      (''y'', \<lparr> oi_progress = Fraction (3602879701896397 / 9007199254740992),
               oi_complete = False, oi_bytes = 100 \<rparr>),
      (''z'', \<lparr> oi_progress = Unknown, oi_complete = False, oi_bytes = 7 \<rparr>)]"

text \<open>Arrays for the progress of \<open>FileArray\<close> outputs: three positions with one
  filled, five with all and with none filled, and an array of size zero.\<close>

definition third_filled :: FileArray where
  "third_filled =
     \<lparr> shape = [Some 3], mask_linear = [False, True, True],
       folder = [\<lparr> is_file = True, st_size = 24 \<rparr>] \<rparr>"

definition all_filled :: FileArray where
  "all_filled =
     \<lparr> shape = [Some 5], mask_linear = [False, False, False, False, False],
       folder = [\<lparr> is_file = True, st_size = 40 \<rparr>] \<rparr>"

definition none_filled :: FileArray where
  "none_filled =
     \<lparr> shape = [Some 5], mask_linear = [True, True, True, True, True], folder = [] \<rparr>"

definition empty_array :: FileArray where
  "empty_array = \<lparr> shape = [Some 0], mask_linear = [], folder = [] \<rparr>"

text \<open>Run folders under \<open>runs\<close>: one whose \<open>run_info.json\<close> loads (it describes
  \<open>example_run\<close>), and one whose \<open>run_info.json\<close> exists but neither parses nor loads.\<close>

definition valid_run_info :: "string \<Rightarrow> run_info_file" where
  "valid_run_info mtime =
     \<lparr> mtime_isoformat = mtime, json_loads = Some (Some ''0.80.0''),
       RunInfo_load = Some example_run \<rparr>"

definition corrupt_run_info :: "string \<Rightarrow> run_info_file" where
  "corrupt_run_info mtime =
     \<lparr> mtime_isoformat = mtime, json_loads = None, RunInfo_load = None \<rparr>"

definition run_dir :: "string \<Rightarrow> run_info_file \<Rightarrow> dir_entry" where
  "run_dir p f = \<lparr> path = p, is_dir = True, run_info = Some f \<rparr>"

definition plain_file :: "string \<Rightarrow> dir_entry" where
  "plain_file p = \<lparr> path = p, is_dir = False, run_info = None \<rparr>"

definition runs_fs :: "dir_entry list \<Rightarrow> string \<Rightarrow> fs_node" where
  "runs_fs entries f = (if f = ''runs'' then Directory entries else Missing)"

text \<open>An entry as the first loop leaves it, and as the second loop fills it for a
  folder that describes \<open>example_run\<close>.\<close>

definition bare_entry :: "string \<Rightarrow> string \<Rightarrow> RunEntry" where
  "bare_entry mtime p =
     \<lparr> last_modified = mtime, entry_run_folder = p, all_complete = None,
       total_outputs = None, completed_outputs = None, pipefunc_version = None \<rparr>"

definition full_entry :: "string \<Rightarrow> string \<Rightarrow> RunEntry" where
  "full_entry mtime p =
     \<lparr> last_modified = mtime, entry_run_folder = p, all_complete = Some False,
       total_outputs = Some 4, completed_outputs = Some 1,
       pipefunc_version = Some ''0.80.0'' \<rparr>"

text \<open>Newest first: no entry is followed by one with a greater \<open>last_modified\<close>.\<close>

definition newest_first :: "RunEntry list \<Rightarrow> bool" where
  "newest_first rs = sorted_wrt (\<lambda>a b. last_modified b \<le> last_modified a) rs"

text \<open>What the first loop leaves: the entries found and the variable
  \<open>run_info_path\<close>. The entries that the second loop visits are the found ones,
  sorted and cut.\<close>

definition found_by_scan :: "dir_entry list \<Rightarrow> RunEntry list" where
  "found_by_scan entries = fst (scan_loop entries ([], 0, None))"

definition left_run_info_path :: "dir_entry list \<Rightarrow> string option" where
  "left_run_info_path entries = snd (snd (scan_loop entries ([], 0, None)))"

definition cut_runs :: "int option \<Rightarrow> dir_entry list \<Rightarrow> RunEntry list" where
  "cut_runs max_runs entries = truncate_runs max_runs (sort_reverse (found_by_scan entries))"

text \<open>Whether the loop body returns for an entry, the entry it leaves, and what it
  counts.\<close>

definition summarizes :: "dir_entry list \<Rightarrow> string option \<Rightarrow> RunEntry \<Rightarrow> bool" where
  "summarizes entries run_info_path e =
     (case summarize_entry entries run_info_path e of Inl err \<Rightarrow> False | Inr x \<Rightarrow> True)"

definition summary_of :: "dir_entry list \<Rightarrow> string option \<Rightarrow> RunEntry \<Rightarrow> RunEntry" where
  "summary_of entries run_info_path e =
     (case summarize_entry entries run_info_path e of Inl err \<Rightarrow> e | Inr x \<Rightarrow> fst x)"

definition counted :: "dir_entry list \<Rightarrow> string option \<Rightarrow> RunEntry \<Rightarrow> nat" where
  "counted entries run_info_path e =
     (case summarize_entry entries run_info_path e of Inl err \<Rightarrow> 0 | Inr x \<Rightarrow> snd x)"

text \<open>A run whose only output is an array of size zero, so that its summary raises.\<close>

definition empty_array_run :: run_info_file where
  "empty_array_run =
     \<lparr> mtime_isoformat = ''2024-04-01T09:00:00'', json_loads = Some (Some ''0.80.0''),
       RunInfo_load =
         Some \<lparr> all_output_names = [''w''],
                init_store = [(''w'', StorageFileArray empty_array)] \<rparr> \<rparr>"

text \<open>A runner whose task is pending, the launch of job \<open>j1\<close> with it, and the job
  record of \<open>j1\<close> by its status and task.\<close>

definition pending_runner :: AsyncMap where
  "pending_runner =
     \<lparr> task = \<lparr> task_state = Pending, must_cancel = False \<rparr>, runner_progress = Some [] \<rparr>"

definition launch_j1 :: event where
  "launch_j1 = Launch None ''j1'' ''2024-05-01T10:00:00+00:00'' pending_runner None"

definition job_j1 :: "string \<Rightarrow> task \<Rightarrow> JobInfo" where
  "job_j1 st t =
     \<lparr> runner = \<lparr> task = t, runner_progress = Some [] \<rparr>,
       started_at = ''2024-05-01T10:00:00+00:00'', run_folder = ''runs/job_j1'',
       status = st, pipeline_name = ''Unnamed Pipeline'' \<rparr>"

definition launch_info :: "string list" where
  "launch_info =
     [''Starting async pipeline pipeline.name=None with job_id=j1 and run_folder=runs/job_j1'',
      ''Started async job j1 in folder runs/job_j1'']"

text \<open>The status of a job as \<open>check_job_status\<close> and as \<open>list_jobs\<close> report it after
  a sequence of events from the empty registry.\<close>

definition status_views :: "event list \<Rightarrow> string \<Rightarrow> string option \<times> string option" where
  "status_views evs job_id =
     (case run_honoured initial evs of
        None \<Rightarrow> (None, None)
      | Some s \<Rightarrow> (checked_status (job_registry s) job_id,
                   listed_status (job_registry s) job_id))"

text \<open>What \<open>check_job_status\<close> does for a job after a sequence of events from the
  empty registry.\<close>

definition response_after :: "event list \<Rightarrow> string \<Rightarrow> (py_error + check_response) option" where
  "response_after evs job_id =
     (case run_honoured initial evs of
        None \<Rightarrow> None
      | Some s \<Rightarrow> Some (check_job_status (job_registry s) job_id))"

text \<open>Two invariants of the registry that the proofs use: on the values a stored
  status has taken, and on the task of a job that is stored as cancelled.\<close>

definition status_ok :: "server \<Rightarrow> bool" where
  "status_ok s = (\<forall>j job. map_of (job_registry s) j = Some job \<longrightarrow>
      status job = ''running'' \<or> status job = ''cancelled'')"


text \<open>Three run folders: two that summarize, and an older one whose summary raises.\<close>

definition three_runs :: "dir_entry list" where
  "three_runs =
     [run_dir ''runs/a'' (valid_run_info ''2024-05-02T10:00:00''),
      run_dir ''runs/c'' (valid_run_info ''2024-05-03T08:30:00''),
      run_dir ''runs/old'' empty_array_run]"

section \<open>Properties\<close>

subsection \<open>Rounding to binary64\<close>

text \<open>Rounding a number between 0 and 1 moves it by at most \<open>2\<^sup>-\<^sup>5\<^sup>3\<close> and keeps it
  between 0 and 1.\<close>

lemma round_half_even_error: "\<bar>of_int (round_half_even q) - q\<bar> \<le> 1 / 2"
proof -
  define n where "n = \<lfloor>q\<rfloor>"
  define r where "r = q - of_int n"
  have r0: "0 \<le> r" and r1: "r < 1"
    unfolding r_def n_def by linarith+
  have q: "q = of_int n + r" by (simp add: r_def)
  have rhe: "round_half_even q =
      (if r < 1 / 2 then n else if 1 / 2 < r then n + 1 else if even n then n else n + 1)"
    unfolding round_half_even_def Let_def r_def n_def by (rule refl)
  show ?thesis
  proof (cases "r < 1 / 2")
    case True
    with rhe r0 q show ?thesis by simp
  next
    case False
    note nlt = this
    show ?thesis
    proof (cases "1 / 2 < r")
      case True
      with rhe nlt r1 q show ?thesis by simp
    next
      case False
      with nlt have "r = 1 / 2" by simp
      with rhe q show ?thesis by (cases "even n") simp_all
    qed
  qed
qed

lemma round_half_even_nonneg:
  assumes "0 \<le> q"
  shows "0 \<le> round_half_even q"
proof -
  from assms have "0 \<le> \<lfloor>q\<rfloor>" by simp
  then show ?thesis
    unfolding round_half_even_def Let_def by auto
qed

lemma round_half_even_le:
  assumes "q \<le> of_int N"
  shows "round_half_even q \<le> N"
proof (cases "q = of_int N")
  case True
  then show ?thesis
    unfolding round_half_even_def Let_def by simp
next
  case False
  with assms have "q < of_int N" by simp
  then have "\<lfloor>q\<rfloor> < N" by (simp add: floor_less_iff)
  then show ?thesis
    unfolding round_half_even_def Let_def by auto
qed

lemma exponent_le_0:
  assumes "0 < x" and "x \<le> 1"
  shows "exponent x \<le> 0"
proof (cases "1 \<le> x")
  case True
  with assms have "x = 1" by simp
  then show ?thesis
    by (simp add: exponent_def log2_floor.simps)
next
  case False
  then show ?thesis by (simp add: exponent_def)
qed

lemma float_round_unit:
  assumes "0 \<le> x" and "x \<le> 1"
  shows "\<bar>float_round x - x\<bar> \<le> 1 / 2 ^ 53 \<and> 0 \<le> float_round x \<and> float_round x \<le> 1"
proof (cases "x = 0")
  case True
  then show ?thesis by (simp add: float_round_def)
next
  case False
  with assms have pos: "0 < x" by simp
  define s where "s = max (exponent x - 52) (- 1074)"
  define k where "k = nat (- s)"
  from exponent_le_0 [OF pos assms(2)] have s_le: "s \<le> - 52" and s_ge: "- 1074 \<le> s"
    by (auto simp: s_def)
  then have k: "52 \<le> k" and sk: "s = - int k" by (auto simp: k_def)
  have p: "pow2 s = 1 / 2 ^ k"
    using s_le by (simp add: pow2_def k_def)
  have fr: "float_round x = of_int (round_half_even (x * 2 ^ k)) / 2 ^ k"
    using pos False by (simp add: float_round_def Let_def s_def [symmetric] p)
  let ?q = "x * 2 ^ k"
  let ?n = "round_half_even ?q"
  have pk: "(0::rat) < 2 ^ k" by simp
  have h1: "\<bar>of_int ?n - ?q\<bar> \<le> 1 / 2" by (rule round_half_even_error)
  have h2: "\<bar>of_int ?n - ?q\<bar> / 2 ^ k \<le> (1 / 2) / 2 ^ k"
    using h1 by (rule divide_right_mono) simp
  have h3: "\<bar>of_int ?n - ?q\<bar> / 2 ^ k = \<bar>of_int ?n / 2 ^ k - x\<bar>"
  proof -
    have "of_int ?n / 2 ^ k - x = (of_int ?n - ?q) / 2 ^ k"
      by (simp add: field_simps)
    then show ?thesis by (simp add: abs_divide)
  qed
  have h4: "(1 / 2) / (2::rat) ^ k \<le> 1 / 2 ^ 53"
  proof -
    from k have "(2::rat) ^ 53 \<le> 2 ^ Suc k"
      by (intro power_increasing) auto
    then have "1 / (2::rat) ^ Suc k \<le> 1 / 2 ^ 53"
      by (intro divide_left_mono) auto
    then show ?thesis by simp
  qed
  from h2 have "\<bar>of_int ?n / 2 ^ k - x\<bar> \<le> (1 / 2) / 2 ^ k"
    unfolding h3 .
  from this h4 have "\<bar>of_int ?n / 2 ^ k - x\<bar> \<le> 1 / 2 ^ 53"
    by (rule order_trans)
  then have err: "\<bar>float_round x - x\<bar> \<le> 1 / 2 ^ 53"
    unfolding fr .
  have "0 \<le> ?q" using assms(1) by simp
  then have "0 \<le> ?n" by (rule round_half_even_nonneg)
  then have nonneg: "0 \<le> float_round x" using fr by simp
  have "?q \<le> of_int (2 ^ k)" using assms(2) by (simp add: mult_left_le_one_le)
  then have "?n \<le> 2 ^ k" by (rule round_half_even_le)
  then have "(of_int ?n :: rat) \<le> of_int (2 ^ k)" by (simp only: of_int_le_iff)
  then have le1: "float_round x \<le> 1" using fr by (simp add: divide_le_eq)
  from err nonneg le1 show ?thesis by blast
qed

lemma float_round_0: "float_round 0 = 0"
  by (simp add: float_round_def)

lemma float_round_1: "float_round 1 = 1"
  by code_simp

subsection \<open>Unknown job identifiers\<close>

text \<open>
  Claim C8. For a \<open>job_id\<close> that is not in the registry, \<open>_check_job_status\<close> and
  \<open>_cancel_job\<close> both return the dict \<open>{"error": "Job not found"}\<close>: a response, not
  an exception, and the server is left as it was.
\<close>

theorem not_found_responses:
  assumes "map_of (job_registry s) job_id = None"
  shows "check_job_status (job_registry s) job_id = Inr (ErrorDict ''Job not found'') \<and>
         cancel_job s job_id =
           (\<lparr> cr_error = Some ''Job not found'', cr_status = None, cr_job_id = None \<rparr>, s)"
  using assms by (simp add: check_job_status_def cancel_job_def)

theorem not_found_responses_witness:
  "map_of (job_registry initial) ''no-such-job'' = None \<and>
   check_job_status (job_registry initial) ''no-such-job'' = Inr (ErrorDict ''Job not found'') \<and>
   cancel_job initial ''no-such-job'' =
     (\<lparr> cr_error = Some ''Job not found'', cr_status = None, cr_job_id = None \<rparr>, initial)"
proof -
  have h: "map_of (job_registry initial) ''no-such-job'' = None"
    by (simp add: initial_def)
  from not_found_responses [OF h] h show ?thesis by simp
qed

subsection \<open>Cancelling a job that is already done\<close>

text \<open>
  Claim C7. When the task of a registered job is done, \<open>_cancel_job\<close> returns the error
  dict \<open>"Job not found or already completed"\<close> with the \<open>job_id\<close>, and the server is
  unchanged: the stored status stays what it was and \<open>task.cancel()\<close> is not called.
\<close>

theorem cancel_done_job:
  assumes "map_of (job_registry s) job_id = Some job"
    and "task_done (task (runner job))"
  shows "cancel_job s job_id =
           (\<lparr> cr_error = Some ''Job not found or already completed'', cr_status = None,
              cr_job_id = Some job_id \<rparr>, s)"
  using assms by (simp add: cancel_job_def)

theorem cancel_done_job_witness:
  "map_of (job_registry \<lparr> job_registry = [(''j1'', finished_job)], ctx_info = [] \<rparr>) ''j1''
     = Some finished_job \<and>
   task_done (task (runner finished_job)) \<and>
   cancel_job \<lparr> job_registry = [(''j1'', finished_job)], ctx_info = [] \<rparr> ''j1'' =
     (\<lparr> cr_error = Some ''Job not found or already completed'', cr_status = None,
        cr_job_id = Some ''j1'' \<rparr>,
      \<lparr> job_registry = [(''j1'', finished_job)], ctx_info = [] \<rparr>)"
proof -
  let ?s = "\<lparr> job_registry = [(''j1'', finished_job)], ctx_info = [] \<rparr>"
  have h1: "map_of (job_registry ?s) ''j1'' = Some finished_job" by simp
  have h2: "task_done (task (runner finished_job))"
    by (simp add: finished_job_def task_done_def)
  from cancel_done_job [OF h1 h2] h1 h2 show ?thesis by simp
qed

subsection \<open>What \<open>_check_job_status\<close> returns for a registered job\<close>

lemma check_pending:
  assumes "map_of reg job_id = Some job" "runner_progress (runner job) = Some pd"
    "task_state (task (runner job)) = Pending"
  shows "\<exists>r. check_job_status reg job_id = Inr (ResultInfo r) \<and> ri_results r = None \<and>
             ri_error r = None \<and> ri_status r = ''running''"
  using assms by (simp add: check_job_status_def task_done_def Let_def)

lemma check_finished:
  assumes "map_of reg job_id = Some job" "runner_progress (runner job) = Some pd"
    "task_state (task (runner job)) = Finished res"
  shows "\<exists>r. check_job_status reg job_id = Inr (ResultInfo r) \<and>
             ri_results r = Some (dict_of_items output_entry_of res []) \<and>
             ri_error r = None \<and> ri_status r = ''completed''"
  using assms by (simp add: check_job_status_def task_done_def exception_def result_def Let_def)

lemma check_raised:
  assumes "map_of reg job_id = Some job" "runner_progress (runner job) = Some pd"
    "task_state (task (runner job)) = Raised e"
  shows "\<exists>r. check_job_status reg job_id = Inr (ResultInfo r) \<and> ri_results r = None \<and>
             ri_error r = Some e \<and> ri_status r = ''completed''"
  using assms by (simp add: check_job_status_def task_done_def exception_def result_def Let_def)

lemma check_cancelled:
  assumes "map_of reg job_id = Some job" "runner_progress (runner job) = Some pd"
    "task_state (task (runner job)) = Cancelled"
  shows "check_job_status reg job_id = Inl CancelledError"
  using assms by (simp add: check_job_status_def task_done_def exception_def result_def Let_def)

subsection \<open>What \<open>_progress_info_from_disk\<close> reports for one output\<close>

lemma progress_info_loop_entry:
  assumes "progress_info_loop store names outputs ac = Inr (outputs', ac')"
  shows "map_of outputs' n =
           (if n \<in> set names
            then (case map_of store n of
                    None \<Rightarrow> None
                  | Some d \<Rightarrow>
                      (case output_progress d of
                         Inl e \<Rightarrow> None
                       | Inr (p, b) \<Rightarrow>
                           Some \<lparr> oi_progress = p, oi_complete = (p = Fraction 1), oi_bytes = b \<rparr>))
            else map_of outputs n)"
  using assms
proof (induction names arbitrary: outputs ac)
  case Nil
  then show ?case by simp
next
  case (Cons a names)
  from Cons.prems obtain d where d: "map_of store a = Some d"
    by (auto split: option.splits)
  from Cons.prems d obtain p b where pb: "output_progress d = Inr (p, b)"
    by (auto split: sum.splits)
  let ?o = "AList.update a \<lparr> oi_progress = p, oi_complete = (p = Fraction 1), oi_bytes = b \<rparr> outputs"
  from Cons.prems d pb
  have rec: "progress_info_loop store names ?o (ac \<and> p = Fraction 1) = Inr (outputs', ac')"
    by (simp add: Let_def)
  note ih = Cons.IH [OF rec]
  show ?case
  proof (cases "n \<in> set names")
    case True
    with ih show ?thesis by simp
  next
    case False
    with ih d pb show ?thesis by (simp add: update_conv')
  qed
qed

lemma progress_info_loop_some:
  assumes "progress_info_loop store names outputs ac = Inr (outputs', ac')"
    and "n \<in> set names" and "map_of store n = Some d"
  shows "\<exists>p b. output_progress d = Inr (p, b) \<and>
           map_of outputs' n =
             Some \<lparr> oi_progress = p, oi_complete = (p = Fraction 1), oi_bytes = b \<rparr>"
  using assms
proof (induction names arbitrary: outputs ac)
  case Nil
  then show ?case by simp
next
  case (Cons a names)
  from Cons.prems(1) obtain d' where d': "map_of store a = Some d'"
    by (auto split: option.splits)
  from Cons.prems(1) d' obtain p b where pb: "output_progress d' = Inr (p, b)"
    by (auto split: sum.splits)
  let ?o = "AList.update a \<lparr> oi_progress = p, oi_complete = (p = Fraction 1), oi_bytes = b \<rparr> outputs"
  from Cons.prems(1) d' pb
  have rec: "progress_info_loop store names ?o (ac \<and> p = Fraction 1) = Inr (outputs', ac')"
    by (simp add: Let_def)
  show ?case
  proof (cases "n \<in> set names")
    case True
    from Cons.IH [OF rec True Cons.prems(3)] show ?thesis .
  next
    case False
    with Cons.prems(2) have na: "n = a" by simp
    with d' Cons.prems(3) have dd: "d' = d" by simp
    from progress_info_loop_entry [OF rec, of n] False na
    have "map_of outputs' n = Some \<lparr> oi_progress = p, oi_complete = (p = Fraction 1), oi_bytes = b \<rparr>"
      by (simp add: update_conv')
    with pb dd show ?thesis by blast
  qed
qed

lemma example_run_result:
  "progress_info_from_disk example_run = Inr (example_outputs, False)"
  by code_simp

text \<open>
  Claim C9. For an output stored as a single file, \<open>_progress_info_from_disk\<close> reports
  progress 1.0, complete, and the size of the file as its bytes when the file exists, and
  progress 0.0, not complete, and 0 bytes when it does not. No other fraction is
  reported for such an output.
\<close>

theorem single_file_progress:
  assumes "progress_info_from_disk ri = Inr (outputs, ac)"
    and "n \<in> set (all_output_names ri)"
    and "map_of (init_store ri) n = Some (PathData st)"
  shows "output_progress (PathData st) =
           Inr (case st of Some sz \<Rightarrow> (Fraction 1, sz) | None \<Rightarrow> (Fraction 0, 0)) \<and>
         map_of outputs n =
           Some (case st of
                   Some sz \<Rightarrow> \<lparr> oi_progress = Fraction 1, oi_complete = True, oi_bytes = sz \<rparr>
                 | None \<Rightarrow> \<lparr> oi_progress = Fraction 0, oi_complete = False, oi_bytes = 0 \<rparr>)"
proof -
  from assms(1) have "progress_info_loop (init_store ri) (all_output_names ri) [] True
      = Inr (outputs, ac)"
    by (simp add: progress_info_from_disk_def)
  from progress_info_loop_some [OF this assms(2) assms(3)]
  show ?thesis
    by (cases st) (auto simp: output_progress_def)
qed

theorem single_file_progress_witness:
  "progress_info_from_disk example_run = Inr (example_outputs, False) \<and>
   ''total'' \<in> set (all_output_names example_run) \<and>
   map_of (init_store example_run) ''total'' = Some (PathData (Some 120)) \<and>
   ''pending'' \<in> set (all_output_names example_run) \<and>
   map_of (init_store example_run) ''pending'' = Some (PathData None) \<and>
   map_of example_outputs ''total''
     = Some \<lparr> oi_progress = Fraction 1, oi_complete = True, oi_bytes = 120 \<rparr> \<and>
   map_of example_outputs ''pending''
     = Some \<lparr> oi_progress = Fraction 0, oi_complete = False, oi_bytes = 0 \<rparr>"
proof -
  note r = example_run_result
  have n1: "''total'' \<in> set (all_output_names example_run)" by (simp add: example_run_def)
  have s1: "map_of (init_store example_run) ''total'' = Some (PathData (Some 120))"
    by (simp add: example_run_def)
  have n2: "''pending'' \<in> set (all_output_names example_run)" by (simp add: example_run_def)
  have s2: "map_of (init_store example_run) ''pending'' = Some (PathData None)"
    by (simp add: example_run_def)
  from single_file_progress [OF r n1 s1] single_file_progress [OF r n2 s2] r n1 s1 n2 s2
  show ?thesis by simp
qed

text \<open>The mask flags the missing positions, so the filled ones are the rest.\<close>

lemma sum_bools_filled: "sum_bools flags + filled_count flags = length flags"
  by (induction flags) (auto simp: sum_bools_def filled_count_def)

lemma resolved_dims:
  assumes "shape fa = map Some dims"
  shows "shape_is_resolved (shape fa) \<and> array_size fa = prod_list dims"
proof -
  have "list_all (\<lambda>d. d \<noteq> None) (map Some dims)" by (induction dims) auto
  moreover have "List.map_filter id (map Some dims) = dims"
    by (induction dims) (auto simp: List.map_filter_simps)
  ultimately show ?thesis
    using assms by (simp add: shape_is_resolved_def array_size_def)
qed

text \<open>The float \<open>1.0 - missing / size\<close> against the fraction of filled positions.\<close>

lemma float_progress:
  assumes "missing + filled = size_v" and "0 < size_v"
  shows "\<bar>float_sub 1 (float_round (of_nat missing / of_nat size_v))
           - of_nat filled / of_nat size_v\<bar> \<le> 1 / 2 ^ 52 \<and>
         (filled = size_v \<longrightarrow> float_sub 1 (float_round (of_nat missing / of_nat size_v)) = 1) \<and>
         (filled = 0 \<longrightarrow> float_sub 1 (float_round (of_nat missing / of_nat size_v)) = 0)"
proof -
  let ?x = "(of_nat missing :: rat) / of_nat size_v"
  let ?y = "float_round ?x"
  from assms have x01: "0 \<le> ?x" "?x \<le> 1" by simp_all
  from float_round_unit [OF x01]
  have y: "\<bar>?y - ?x\<bar> \<le> 1 / 2 ^ 53" "0 \<le> ?y" "?y \<le> 1" by simp_all
  then have "0 \<le> 1 - ?y" "1 - ?y \<le> 1" by simp_all
  from float_round_unit [OF this]
  have p: "\<bar>float_round (1 - ?y) - (1 - ?y)\<bar> \<le> 1 / 2 ^ 53" by simp
  from assms have "(of_nat size_v :: rat) = of_nat missing + of_nat filled"
    by (metis of_nat_add)
  with assms(2) have f: "(of_nat filled :: rat) / of_nat size_v = 1 - ?x"
    by (simp add: field_simps)
  have "\<bar>float_round (1 - ?y) - (1 - ?x)\<bar> \<le> 1 / 2 ^ 53 + 1 / 2 ^ 53"
    using p y(1) unfolding abs_le_iff by linarith
  then have bound: "\<bar>float_sub 1 ?y - of_nat filled / of_nat size_v\<bar> \<le> 1 / 2 ^ 52"
    by (simp add: float_sub_def f)
  have full: "filled = size_v \<longrightarrow> float_sub 1 ?y = 1"
  proof
    assume "filled = size_v"
    with assms have "missing = 0" by simp
    then show "float_sub 1 ?y = 1"
      by (simp add: float_sub_def float_round_0 float_round_1)
  qed
  have none: "filled = 0 \<longrightarrow> float_sub 1 ?y = 0"
  proof
    assume "filled = 0"
    with assms have "missing = size_v" by simp
    with assms(2) show "float_sub 1 ?y = 0"
      by (simp add: float_sub_def float_round_0 float_round_1)
  qed
  from bound full none show ?thesis by blast
qed

text \<open>
  Claim C4, as the code has it. For an output stored as a \<open>FileArray\<close> whose shape is
  resolved, whose size (the product of the dimensions) is positive and whose mask has
  one flag per position, \<open>_progress_info_from_disk\<close> reports as progress the float
  \<open>1.0 - missing / size\<close>, where the missing positions are those the mask flags. This
  float is within \<open>2\<^sup>-\<^sup>5\<^sup>2\<close> of the number of filled positions divided by the size;
  it is \<open>1.0\<close> when every position is filled and \<open>0.0\<close> when none is. When the shape
  is not resolved the progress is \<open>"unknown"\<close>. In both cases the bytes are the sum of
  the sizes of the regular files under the array's folder. What the branch yields is
  what the function reports for the output.
\<close>

theorem array_progress:
  "(shape_is_resolved (shape fa) \<and> 0 < array_size fa \<and>
    length (mask_linear fa) = array_size fa \<longrightarrow>
      (\<exists>p. output_progress (StorageFileArray fa) = Inr (Fraction p, nbytes_of (folder fa)) \<and>
           p = float_sub 1 (float_round
                 (of_nat (array_size fa - filled_count (mask_linear fa)) / of_nat (array_size fa))) \<and>
           \<bar>p - of_nat (filled_count (mask_linear fa)) / of_nat (array_size fa)\<bar> \<le> 1 / 2 ^ 52 \<and>
           (filled_count (mask_linear fa) = array_size fa \<longrightarrow> p = 1) \<and>
           (filled_count (mask_linear fa) = 0 \<longrightarrow> p = 0))) \<and>
   (\<not> shape_is_resolved (shape fa) \<longrightarrow>
      output_progress (StorageFileArray fa) = Inr (Unknown, nbytes_of (folder fa))) \<and>
   (\<forall>dims. shape fa = map Some dims \<longrightarrow>
      shape_is_resolved (shape fa) \<and> array_size fa = prod_list dims) \<and>
   (progress_info_from_disk ri = Inr (outputs, ac) \<and> n \<in> set (all_output_names ri) \<and>
    map_of (init_store ri) n = Some (StorageFileArray fa) \<longrightarrow>
      (\<exists>p b. output_progress (StorageFileArray fa) = Inr (p, b) \<and>
         map_of outputs n = Some \<lparr> oi_progress = p, oi_complete = (p = Fraction 1), oi_bytes = b \<rparr>))"
proof (intro conjI impI allI)
  assume a: "shape_is_resolved (shape fa) \<and> 0 < array_size fa \<and>
    length (mask_linear fa) = array_size fa"
  let ?m = "sum_bools (mask_linear fa)"
  let ?f = "filled_count (mask_linear fa)"
  let ?t = "array_size fa"
  from a sum_bools_filled [of "mask_linear fa"] have sum: "?m + ?f = ?t" by simp
  then have m: "?m = ?t - ?f" by simp
  from a have pos: "0 < ?t" by simp
  let ?p = "float_sub 1 (float_round (of_nat ?m / of_nat ?t))"
  from a have "output_progress (StorageFileArray fa) = Inr (Fraction ?p, nbytes_of (folder fa))"
    by (simp add: output_progress_def truediv_def)
  with float_progress [OF sum pos] m
  show "\<exists>p. output_progress (StorageFileArray fa) = Inr (Fraction p, nbytes_of (folder fa)) \<and>
           p = float_sub 1 (float_round (of_nat (?t - ?f) / of_nat ?t)) \<and>
           \<bar>p - of_nat ?f / of_nat ?t\<bar> \<le> 1 / 2 ^ 52 \<and>
           (?f = ?t \<longrightarrow> p = 1) \<and> (?f = 0 \<longrightarrow> p = 0)"
    by auto
next
  assume "\<not> shape_is_resolved (shape fa)"
  then show "output_progress (StorageFileArray fa) = Inr (Unknown, nbytes_of (folder fa))"
    by (simp add: output_progress_def)
next
  fix dims assume "shape fa = map Some dims"
  from resolved_dims [OF this] show "shape_is_resolved (shape fa)" by (rule conjunct1)
next
  fix dims assume "shape fa = map Some dims"
  from resolved_dims [OF this] show "array_size fa = prod_list dims" by (rule conjunct2)
next
  assume a: "progress_info_from_disk ri = Inr (outputs, ac) \<and> n \<in> set (all_output_names ri) \<and>
    map_of (init_store ri) n = Some (StorageFileArray fa)"
  then have "progress_info_loop (init_store ri) (all_output_names ri) [] True
      = Inr (outputs, ac)"
    by (simp add: progress_info_from_disk_def)
  from progress_info_loop_some [OF this] a
  show "\<exists>p b. output_progress (StorageFileArray fa) = Inr (p, b) \<and>
         map_of outputs n = Some \<lparr> oi_progress = p, oi_complete = (p = Fraction 1), oi_bytes = b \<rparr>"
    by blast
qed

theorem array_progress_witness:
  "shape_is_resolved (shape example_y) \<and> 0 < array_size example_y \<and>
   length (mask_linear example_y) = array_size example_y \<and>
   shape example_y = map Some [5] \<and> array_size example_y = prod_list [5] \<and>
   filled_count (mask_linear example_y) = 2 \<and>
   output_progress (StorageFileArray example_y)
     = Inr (Fraction (3602879701896397 / 9007199254740992), 100) \<and>
   \<bar>3602879701896397 / 9007199254740992 - (2::rat) / 5\<bar> \<le> 1 / 2 ^ 52 \<and>
   shape_is_resolved (shape all_filled) \<and> 0 < array_size all_filled \<and>
   length (mask_linear all_filled) = array_size all_filled \<and>
   filled_count (mask_linear all_filled) = array_size all_filled \<and>
   output_progress (StorageFileArray all_filled) = Inr (Fraction 1, 40) \<and>
   shape_is_resolved (shape none_filled) \<and> 0 < array_size none_filled \<and>
   length (mask_linear none_filled) = array_size none_filled \<and>
   filled_count (mask_linear none_filled) = 0 \<and>
   output_progress (StorageFileArray none_filled) = Inr (Fraction 0, 0) \<and>
   \<not> shape_is_resolved (shape example_z) \<and>
   output_progress (StorageFileArray example_z) = Inr (Unknown, 7) \<and>
   progress_info_from_disk example_run = Inr (example_outputs, False) \<and>
   ''y'' \<in> set (all_output_names example_run) \<and>
   map_of (init_store example_run) ''y'' = Some (StorageFileArray example_y) \<and>
   map_of example_outputs ''y''
     = Some \<lparr> oi_progress = Fraction (3602879701896397 / 9007199254740992),
              oi_complete = False, oi_bytes = 100 \<rparr>"
proof -
  have y1: "shape_is_resolved (shape example_y)" "0 < array_size example_y"
    "length (mask_linear example_y) = array_size example_y"
    "shape example_y = map Some [5]" "filled_count (mask_linear example_y) = 2"
    "array_size example_y = 5" "nbytes_of (folder example_y) = 100"
    by (simp_all add: example_y_def shape_is_resolved_def array_size_def filled_count_def
        nbytes_of_def List.map_filter_simps)
  have yv: "float_sub 1 (float_round (of_nat (5 - 2) / of_nat 5))
      = 3602879701896397 / 9007199254740992"
    by code_simp
  have a1: "shape_is_resolved (shape all_filled)" "0 < array_size all_filled"
    "length (mask_linear all_filled) = array_size all_filled"
    "filled_count (mask_linear all_filled) = array_size all_filled"
    "nbytes_of (folder all_filled) = 40"
    by (simp_all add: all_filled_def shape_is_resolved_def array_size_def filled_count_def
        nbytes_of_def List.map_filter_simps)
  have n1: "shape_is_resolved (shape none_filled)" "0 < array_size none_filled"
    "length (mask_linear none_filled) = array_size none_filled"
    "filled_count (mask_linear none_filled) = 0"
    "nbytes_of (folder none_filled) = 0"
    by (simp_all add: none_filled_def shape_is_resolved_def array_size_def filled_count_def
        nbytes_of_def List.map_filter_simps)
  have z1: "\<not> shape_is_resolved (shape example_z)" "nbytes_of (folder example_z) = 7"
    by (simp_all add: example_z_def shape_is_resolved_def nbytes_of_def)
  note r = example_run_result
  have r1: "''y'' \<in> set (all_output_names example_run)"
    "map_of (init_store example_run) ''y'' = Some (StorageFileArray example_y)"
    by (simp_all add: example_run_def)
  note ty = array_progress [of example_y example_run example_outputs False "''y''"]
  from ty y1 yv have py: "output_progress (StorageFileArray example_y)
     = Inr (Fraction (3602879701896397 / 9007199254740992), 100)"
    by auto
  from ty y1 yv have bd: "\<bar>3602879701896397 / 9007199254740992 - (2::rat) / 5\<bar> \<le> 1 / 2 ^ 52"
    by auto
  from ty y1(4) have dy: "array_size example_y = prod_list [5]" by blast
  from ty r r1 py have oy: "map_of example_outputs ''y''
     = Some \<lparr> oi_progress = Fraction (3602879701896397 / 9007199254740992),
              oi_complete = False, oi_bytes = 100 \<rparr>"
    by auto
  from array_progress [of all_filled example_run example_outputs False "''y''"] a1
  have pa: "output_progress (StorageFileArray all_filled) = Inr (Fraction 1, 40)"
    by auto
  from array_progress [of none_filled example_run example_outputs False "''y''"] n1
  have pn: "output_progress (StorageFileArray none_filled) = Inr (Fraction 0, 0)"
    by auto
  from array_progress [of example_z example_run example_outputs False "''z''"] z1
  have pz: "output_progress (StorageFileArray example_z) = Inr (Unknown, 7)"
    by auto
  from y1 dy py bd a1 pa n1 pn z1 pz r r1 oy show ?thesis by blast
qed

text \<open>
  Claim C4 as stated fails. With one of three positions filled the float that the
  source computes, \<open>1.0 - 2 / 3\<close>, is \<open>0.33333333333333337\<close>, which is neither the
  float \<open>1 / 3\<close> (\<open>0.3333333333333333\<close>) nor the exact third. For a resolved array of
  size zero the division raises and nothing is reported.
\<close>

theorem fraction_not_filled_over_total:
  "shape_is_resolved (shape third_filled) \<and>
   filled_count (mask_linear third_filled) = 1 \<and> array_size third_filled = 3 \<and>
   output_progress (StorageFileArray third_filled)
     = Inr (Fraction (3002399751580331 / 9007199254740992), 24) \<and>
   float_round (1 / 3) = 6004799503160661 / 18014398509481984 \<and>
   output_progress (StorageFileArray third_filled) \<noteq> Inr (Fraction (float_round (1 / 3)), 24) \<and>
   output_progress (StorageFileArray third_filled) \<noteq> Inr (Fraction (1 / 3), 24) \<and>
   shape_is_resolved (shape empty_array) \<and>
   output_progress (StorageFileArray empty_array) = Inl ZeroDivisionError"
  by code_simp

subsection \<open>The listing of \<open>_list_historical_runs\<close>\<close>

text \<open>The second loop returns exactly when its body returns for every entry it is
  given; it then leaves the summaries of these entries, in order, and the sum of what
  the body counts.\<close>

lemma summarize_loop_returns:
  assumes "list_all (summarizes entries rip) rest"
  shows "summarize_loop entries rip rest (visited, count) =
           Inr (visited @ map (summary_of entries rip) rest,
                count + sum_list (map (counted entries rip) rest))"
  using assms
proof (induction rest arbitrary: visited count)
  case Nil
  then show ?case by simp
next
  case (Cons e rest)
  from Cons.prems obtain e' k where ek: "summarize_entry entries rip e = Inr (e', k)"
    by (auto simp: summarizes_def split: sum.splits)
  from Cons.prems have "list_all (summarizes entries rip) rest" by simp
  from Cons.IH [OF this, of "visited @ [e']" "count + k"] ek
  show ?case by (simp add: summary_of_def counted_def)
qed

lemma summarize_loop_raises:
  assumes "\<not> list_all (summarizes entries rip) rest"
  shows "\<exists>err. summarize_loop entries rip rest (visited, count) = Inl err"
  using assms
proof (induction rest arbitrary: visited count)
  case Nil
  then show ?case by simp
next
  case (Cons e rest)
  show ?case
  proof (cases "summarize_entry entries rip e")
    case (Inl err)
    then show ?thesis by simp
  next
    case (Inr x)
    then have "summarizes entries rip e" by (simp add: summarizes_def)
    with Cons.prems have "\<not> list_all (summarizes entries rip) rest" by simp
    from Cons.IH [OF this, of "visited @ [fst x]" "count + snd x"] Inr
    show ?thesis by (cases x) simp
  qed
qed

lemma summary_of_last_modified:
  "last_modified (summary_of entries rip e) = last_modified e"
  by (auto simp: summary_of_def summarize_entry_def split: sum.splits prod.splits)

lemma counted_le_1: "counted entries rip e \<le> 1"
  by (auto simp: counted_def summarize_entry_def split: sum.splits prod.splits)

lemma sum_counted_le: "sum_list (map (counted entries rip) rs) \<le> length rs"
proof (induction rs)
  case Nil
  then show ?case by simp
next
  case (Cons e rs)
  with counted_le_1 [of entries rip e] show ?case by simp
qed

lemma newest_first_sort_reverse: "newest_first (sort_reverse rs)"
proof -
  have "sorted (map last_modified (sort_key last_modified (rev rs)))"
    by (rule sorted_sort_key)
  then have "sorted_wrt (\<lambda>a b. last_modified a \<le> last_modified b)
      (sort_key last_modified (rev rs))"
    by (simp add: sorted_wrt_map)
  then show ?thesis
    by (simp add: newest_first_def sort_reverse_def sorted_wrt_rev)
qed

lemma newest_first_truncate:
  assumes "newest_first rs"
  shows "newest_first (truncate_runs max_runs rs)"
  using assms
  by (auto simp: newest_first_def truncate_runs_def sorted_wrt_take split: option.splits)

lemma newest_first_map:
  assumes "map last_modified xs = map last_modified ys"
  shows "newest_first xs = newest_first ys"
proof -
  have "newest_first zs = sorted_wrt (\<lambda>a b. b \<le> a) (map last_modified zs)" for zs
    by (simp add: newest_first_def sorted_wrt_map)
  with assms show ?thesis by simp
qed

lemma newest_first_cut: "newest_first (cut_runs max_runs entries)"
  unfolding cut_runs_def by (rule newest_first_truncate [OF newest_first_sort_reverse])

lemma list_historical_runs_directory:
  assumes "fs folder_str = Directory entries"
  shows "list_historical_runs fs folder_str max_runs =
           (case summarize_loop entries (left_run_info_path entries)
                   (cut_runs max_runs entries) ([], 0) of
              Inl e \<Rightarrow> Inl e
            | Inr (visited, count) \<Rightarrow>
                Inr \<lparr> runs = visited, total_count = count, runs_folder = folder_str,
                      scanned_directories = fst (snd (scan_loop entries ([], 0, None))),
                      error = None \<rparr>)"
  using assms
  by (cases "scan_loop entries ([], 0, None)")
     (auto simp: list_historical_runs_def cut_runs_def found_by_scan_def
        left_run_info_path_def split: sum.splits)

text \<open>Without a directory to scan there are no entries, and the error is set.\<close>

lemma list_historical_runs_no_directory:
  assumes "fs folder_str = Missing \<or> fs folder_str = NotADirectory"
  shows "\<exists>r. list_historical_runs fs folder_str max_runs = Inr r \<and> runs r = [] \<and>
           total_count r = 0 \<and> scanned_directories r = 0 \<and> error r \<noteq> None"
  using assms by (auto simp: list_historical_runs_def)

text \<open>
  Claim C6. The entries that \<open>_list_historical_runs\<close> summarizes are the entries found
  by the scan, sorted in descending order of \<open>last_modified\<close> (newest first) and cut to
  the first \<open>max_runs\<close> when \<open>max_runs\<close> is given and positive. The cut is made before
  the loop that loads and summarizes: the listing returns exactly when the summary of
  every entry within the cut returns, whatever lies beyond the cut, and it then
  returns the summaries of the entries within the cut, newest first, with
  \<open>total_count\<close> the number of them that loaded. So at most \<open>max_runs\<close> entries are
  summarized and returned.
\<close>

theorem historical_runs_sorted_truncated:
  assumes "fs folder_str = Directory entries"
  shows "newest_first (cut_runs max_runs entries) \<and>
         (\<forall>n. max_runs = Some n \<and> 0 < n \<longrightarrow>
            cut_runs max_runs entries = take (nat n) (sort_reverse (found_by_scan entries)) \<and>
            length (cut_runs max_runs entries) \<le> nat n) \<and>
         (\<exists>r. list_historical_runs fs folder_str max_runs = Inr r) =
           list_all (summarizes entries (left_run_info_path entries)) (cut_runs max_runs entries) \<and>
         (\<forall>r. list_historical_runs fs folder_str max_runs = Inr r \<longrightarrow>
            runs r = map (summary_of entries (left_run_info_path entries))
                       (cut_runs max_runs entries) \<and>
            total_count r = sum_list (map (counted entries (left_run_info_path entries))
                                        (cut_runs max_runs entries)) \<and>
            newest_first (runs r) \<and>
            (\<forall>n. max_runs = Some n \<and> 0 < n \<longrightarrow>
               length (runs r) \<le> nat n \<and> total_count r \<le> nat n))"
proof -
  let ?rip = "left_run_info_path entries"
  let ?cut = "cut_runs max_runs entries"
  note dir = list_historical_runs_directory [of fs folder_str entries max_runs, OF assms]
  have nf: "newest_first ?cut" by (rule newest_first_cut)
  have len: "\<forall>n. max_runs = Some n \<and> 0 < n \<longrightarrow>
      ?cut = take (nat n) (sort_reverse (found_by_scan entries)) \<and> length ?cut \<le> nat n"
    by (auto simp: cut_runs_def truncate_runs_def)
  have ret: "(\<exists>r. list_historical_runs fs folder_str max_runs = Inr r) =
      list_all (summarizes entries ?rip) ?cut"
  proof (cases "list_all (summarizes entries ?rip) ?cut")
    case True
    from summarize_loop_returns [OF True, of "[]" 0] dir True show ?thesis by simp
  next
    case False
    from summarize_loop_raises [OF False, of "[]" 0] dir False show ?thesis by auto
  qed
  have res: "\<forall>r. list_historical_runs fs folder_str max_runs = Inr r \<longrightarrow>
      runs r = map (summary_of entries ?rip) ?cut \<and>
      total_count r = sum_list (map (counted entries ?rip) ?cut) \<and>
      newest_first (runs r) \<and>
      (\<forall>n. max_runs = Some n \<and> 0 < n \<longrightarrow> length (runs r) \<le> nat n \<and> total_count r \<le> nat n)"
  proof (intro allI impI)
    fix r assume r: "list_historical_runs fs folder_str max_runs = Inr r"
    with ret have ok: "list_all (summarizes entries ?rip) ?cut" by blast
    from summarize_loop_returns [OF ok, of "[]" 0] dir r
    have rr: "runs r = map (summary_of entries ?rip) ?cut"
      and tc: "total_count r = sum_list (map (counted entries ?rip) ?cut)"
      by auto
    have "map last_modified (runs r) = map last_modified ?cut"
      unfolding rr by (simp add: summary_of_last_modified)
    from newest_first_map [OF this] nf have nfr: "newest_first (runs r)" by simp
    from rr have lr: "length (runs r) = length ?cut" by simp
    from tc sum_counted_le [of entries ?rip ?cut] have tl: "total_count r \<le> length ?cut"
      by simp
    from len lr tl have "\<forall>n. max_runs = Some n \<and> 0 < n \<longrightarrow>
        length (runs r) \<le> nat n \<and> total_count r \<le> nat n"
      by auto
    with rr tc nfr show "runs r = map (summary_of entries ?rip) ?cut \<and>
      total_count r = sum_list (map (counted entries ?rip) ?cut) \<and>
      newest_first (runs r) \<and>
      (\<forall>n. max_runs = Some n \<and> 0 < n \<longrightarrow> length (runs r) \<le> nat n \<and> total_count r \<le> nat n)"
      by blast
  qed
  from nf len ret res show ?thesis by blast
qed

lemma empty_run_raises:
  "progress_info_from_disk \<lparr> all_output_names = [''w''],
        init_store = [(''w'', StorageFileArray empty_array)] \<rparr> = Inl ZeroDivisionError"
  by code_simp

lemma three_runs_listing: "list_historical_runs (runs_fs three_runs) ''runs'' (Some 2)
     = Inr \<lparr> runs = [full_entry ''2024-05-03T08:30:00'' ''runs/c'',
                      full_entry ''2024-05-02T10:00:00'' ''runs/a''],
             total_count = 2, runs_folder = ''runs'', scanned_directories = 3, error = None \<rparr>"
  by (simp add: list_historical_runs_def runs_fs_def three_runs_def run_dir_def
      valid_run_info_def empty_array_run_def sort_reverse_def truncate_runs_def load_def
      read_pipefunc_version_def summarize_entry_def example_run_result full_entry_def
      example_outputs_def)

lemma three_runs_listing_all: "list_historical_runs (runs_fs three_runs) ''runs'' None = Inl ZeroDivisionError"
  by (simp add: list_historical_runs_def runs_fs_def three_runs_def run_dir_def
      valid_run_info_def empty_array_run_def sort_reverse_def truncate_runs_def load_def
      read_pipefunc_version_def summarize_entry_def example_run_result empty_run_raises)


lemma three_runs_cut: "cut_runs (Some 2) three_runs =
     [bare_entry ''2024-05-03T08:30:00'' ''runs/c'', bare_entry ''2024-05-02T10:00:00'' ''runs/a'']"
  by (simp add: cut_runs_def three_runs_def found_by_scan_def run_dir_def valid_run_info_def
      empty_array_run_def sort_reverse_def truncate_runs_def bare_entry_def)

theorem historical_runs_sorted_truncated_witness:
  "runs_fs three_runs ''runs'' = Directory three_runs \<and>
   cut_runs (Some 2) three_runs =
     [bare_entry ''2024-05-03T08:30:00'' ''runs/c'', bare_entry ''2024-05-02T10:00:00'' ''runs/a''] \<and>
   list_all (summarizes three_runs (left_run_info_path three_runs)) (cut_runs (Some 2) three_runs) \<and>
   list_historical_runs (runs_fs three_runs) ''runs'' (Some 2)
     = Inr \<lparr> runs = [full_entry ''2024-05-03T08:30:00'' ''runs/c'',
                      full_entry ''2024-05-02T10:00:00'' ''runs/a''],
             total_count = 2, runs_folder = ''runs'', scanned_directories = 3, error = None \<rparr> \<and>
   newest_first [full_entry ''2024-05-03T08:30:00'' ''runs/c'',
                 full_entry ''2024-05-02T10:00:00'' ''runs/a''] \<and>
   length [full_entry ''2024-05-03T08:30:00'' ''runs/c'',
           full_entry ''2024-05-02T10:00:00'' ''runs/a''] \<le> nat 2 \<and>
   \<not> list_all (summarizes three_runs (left_run_info_path three_runs)) (cut_runs None three_runs) \<and>
   list_historical_runs (runs_fs three_runs) ''runs'' None = Inl ZeroDivisionError"
proof -
  let ?r = "\<lparr> runs = [full_entry ''2024-05-03T08:30:00'' ''runs/c'',
                      full_entry ''2024-05-02T10:00:00'' ''runs/a''],
             total_count = 2, runs_folder = ''runs'', scanned_directories = 3, error = None \<rparr>"
  have d: "runs_fs three_runs ''runs'' = Directory three_runs"
    by (simp add: runs_fs_def)
  note t2 = historical_runs_sorted_truncated
    [of "runs_fs three_runs" "''runs''" three_runs "Some 2", OF d]
  note t0 = historical_runs_sorted_truncated
    [of "runs_fs three_runs" "''runs''" three_runs None, OF d]
  from t2 have ret2: "(\<exists>r. list_historical_runs (runs_fs three_runs) ''runs'' (Some 2) = Inr r) =
      list_all (summarizes three_runs (left_run_info_path three_runs)) (cut_runs (Some 2) three_runs)"
    by (rule conjunct1 [OF conjunct2 [OF conjunct2]])
  from three_runs_listing have "\<exists>r. list_historical_runs (runs_fs three_runs) ''runs'' (Some 2) = Inr r"
    by (rule exI)
  with ret2 have ok: "list_all (summarizes three_runs (left_run_info_path three_runs))
      (cut_runs (Some 2) three_runs)"
    by (rule iffD1)
  from t2 have "\<forall>r. list_historical_runs (runs_fs three_runs) ''runs'' (Some 2) = Inr r \<longrightarrow>
      runs r = map (summary_of three_runs (left_run_info_path three_runs))
                 (cut_runs (Some 2) three_runs) \<and>
      total_count r = sum_list (map (counted three_runs (left_run_info_path three_runs))
                                  (cut_runs (Some 2) three_runs)) \<and>
      newest_first (runs r) \<and>
      (\<forall>n. Some 2 = Some n \<and> 0 < n \<longrightarrow> length (runs r) \<le> nat n \<and> total_count r \<le> nat n)"
    by (rule conjunct2 [OF conjunct2 [OF conjunct2]])
  from this [rule_format, OF three_runs_listing]
  have nf: "newest_first (runs ?r)"
    and len: "\<forall>n. Some 2 = Some n \<and> 0 < n \<longrightarrow> length (runs ?r) \<le> nat n \<and> total_count ?r \<le> nat n"
    by blast+
  from nf have nf': "newest_first [full_entry ''2024-05-03T08:30:00'' ''runs/c'',
                 full_entry ''2024-05-02T10:00:00'' ''runs/a'']"
    by simp
  from len [rule_format, of 2] have len': "length [full_entry ''2024-05-03T08:30:00'' ''runs/c'',
           full_entry ''2024-05-02T10:00:00'' ''runs/a''] \<le> nat 2"
    by simp
  from t0 have ret0: "(\<exists>r. list_historical_runs (runs_fs three_runs) ''runs'' None = Inr r) =
      list_all (summarizes three_runs (left_run_info_path three_runs)) (cut_runs None three_runs)"
    by (rule conjunct1 [OF conjunct2 [OF conjunct2]])
  from three_runs_listing_all have "\<not> (\<exists>r. list_historical_runs (runs_fs three_runs) ''runs'' None = Inr r)"
    by simp
  with ret0 have bad: "\<not> list_all (summarizes three_runs (left_run_info_path three_runs))
      (cut_runs None three_runs)"
    by simp
  show ?thesis
    by (intro conjI) (rule d three_runs_cut ok three_runs_listing nf' len' bad three_runs_listing_all)+
qed

text \<open>
  Claim C3. A run folder whose metadata does not load should be dropped from the
  returned entries without aborting the listing. The source does neither. With a valid
  run \<open>runs/a\<close> and an older corrupt run \<open>runs/b\<close> that is iterated last, the summary
  of \<open>runs/a\<close> reads the \<open>run_info.json\<close> of \<open>runs/b\<close> (the variable \<open>run_info_path\<close>
  is the one left by the first loop), \<open>json.loads\<close> raises, and the whole listing is
  lost. With a corrupt run \<open>runs/b\<close> that is newer and iterated first, the listing
  returns, but the entry of \<open>runs/b\<close> is still among \<open>runs\<close>, with only the keys of the
  first loop; only \<open>total_count\<close> leaves it out.
\<close>

theorem corrupt_run_not_dropped:
  "list_historical_runs
     (runs_fs [run_dir ''runs/a'' (valid_run_info ''2024-05-02T10:00:00''),
               run_dir ''runs/b'' (corrupt_run_info ''2024-05-01T10:00:00'')]) ''runs'' None
   = Inl (JSONDecodeError ''runs/b'') \<and>
   list_historical_runs
     (runs_fs [run_dir ''runs/b'' (corrupt_run_info ''2024-05-03T10:00:00''),
               run_dir ''runs/a'' (valid_run_info ''2024-05-02T10:00:00'')]) ''runs'' None
   = Inr \<lparr> runs = [bare_entry ''2024-05-03T10:00:00'' ''runs/b'',
                    full_entry ''2024-05-02T10:00:00'' ''runs/a''],
           total_count = 1, runs_folder = ''runs'', scanned_directories = 2, error = None \<rparr>"
  by (simp add: list_historical_runs_def runs_fs_def run_dir_def valid_run_info_def
      corrupt_run_info_def sort_reverse_def truncate_runs_def load_def
      read_pipefunc_version_def summarize_entry_def example_run_result bare_entry_def full_entry_def
      example_outputs_def)

text \<open>The first loop counts every entry that \<open>iterdir()\<close> yields.\<close>

lemma scan_loop_counts_entries:
  assumes "scan_loop entries (rs, scanned, p) = (rs', scanned', p')"
  shows "scanned' = scanned + length entries"
  using assms
proof (induction entries arbitrary: rs scanned p)
  case Nil
  then show ?case by simp
next
  case (Cons d ds)
  show ?case
  proof (cases "is_dir d")
    case False
    with Cons.prems have "scan_loop ds (rs, scanned + 1, p) = (rs', scanned', p')" by simp
    from Cons.IH [OF this] show ?thesis by simp
  next
    case True
    show ?thesis
    proof (cases "run_info d")
      case None
      with True Cons.prems
      have "scan_loop ds (rs, scanned + 1, Some (path d)) = (rs', scanned', p')" by simp
      from Cons.IH [OF this] show ?thesis by simp
    next
      case (Some f)
      with True Cons.prems obtain e where
        "scan_loop ds (rs @ [e], scanned + 1, Some (path d)) = (rs', scanned', p')" by simp
      from Cons.IH [OF this] show ?thesis by simp
    qed
  qed
qed

text \<open>
  Claim C5. \<open>scanned_directories\<close> should count the subdirectories of the root that
  were examined. The source adds one for every entry that \<open>iterdir()\<close> yields, before
  it asks whether the entry is a directory: for a root that holds one regular file and
  no subdirectory it reports 1.
\<close>

theorem scanned_directories_counts_files:
  "list_historical_runs (runs_fs [plain_file ''runs/notes.txt'']) ''runs'' None
   = Inr \<lparr> runs = [], total_count = 0, runs_folder = ''runs'', scanned_directories = 1,
           error = None \<rparr> \<and>
   length (filter is_dir [plain_file ''runs/notes.txt'']) = 0"
  by (simp add: list_historical_runs_def runs_fs_def plain_file_def sort_reverse_def
      truncate_runs_def)

subsection \<open>The stored status of a job\<close>

text \<open>A step keeps every job, and changes a stored status only by a cancellation.\<close>

lemma step_status:
  assumes "step s ev = Some s'" and "map_of (job_registry s) j = Some job"
  shows "\<exists>job'. map_of (job_registry s') j = Some job' \<and>
           (status job' = status job \<or> (ev = Cancel j \<and> status job' = ''cancelled''))"
proof (cases ev)
  case (Launch name job_id now async_map rf)
  with assms have "job_id \<notin> fst ` set (job_registry s)"
    by (auto split: if_splits)
  with assms(2) have ne: "job_id \<noteq> j"
    by (metis map_of_eq_None_iff option.distinct(1))
  with assms Launch show ?thesis
    by (auto simp: execute_pipeline_async_def Let_def update_conv' split: if_splits)
next
  case (Cancel job_id)
  with assms show ?thesis
    by (cases "job_id = j")
       (auto simp: cancel_job_def Let_def update_conv' split: option.splits if_splits)
next
  case (TaskEnds job_id outcome)
  with assms show ?thesis
    by (cases "job_id = j")
       (auto simp: set_task_state_def update_conv' split: option.splits if_splits)
qed

lemma step_launch_running:
  assumes "step s (Launch name j now async_map rf) = Some s'"
  shows "\<exists>job'. map_of (job_registry s') j = Some job' \<and> status job' = ''running''"
  using assms
  by (auto simp: execute_pipeline_async_def Let_def update_conv' split: if_splits)

lemma step_status_ok:
  assumes "step s ev = Some s'" and "status_ok s"
  shows "status_ok s'"
  unfolding status_ok_def
proof (intro allI impI)
  fix j job' assume j': "map_of (job_registry s') j = Some job'"
  show "status job' = ''running'' \<or> status job' = ''cancelled''"
  proof (cases "map_of (job_registry s) j")
    case (Some job)
    from assms(2) Some have old: "status job = ''running'' \<or> status job = ''cancelled''"
      unfolding status_ok_def by blast
    from step_status [OF assms(1) Some] j'
    have "status job' = status job \<or> status job' = ''cancelled''"
      by auto
    with old show ?thesis by auto
  next
    case None
    show ?thesis
    proof (cases ev)
      case (Launch name job_id now async_map rf)
      with assms(1) None j' show ?thesis
        by (cases "job_id = j")
           (auto simp: execute_pipeline_async_def Let_def update_conv' split: if_splits)
    next
      case (Cancel job_id)
      with assms(1) None j' show ?thesis
        by (cases "job_id = j")
           (auto simp: cancel_job_def Let_def update_conv' split: option.splits if_splits)
    next
      case (TaskEnds job_id outcome)
      with assms(1) None j' show ?thesis
        by (cases "job_id = j")
           (auto simp: set_task_state_def update_conv' split: option.splits if_splits)
    qed
  qed
qed

lemma run_status_ok:
  assumes "run s evs = Some s'" and "status_ok s"
  shows "status_ok s'"
  using assms
proof (induction evs arbitrary: s)
  case Nil
  then show ?case by simp
next
  case (Cons ev evs)
  from Cons.prems(1) obtain s1 where s1: "step s ev = Some s1" and r: "run s1 evs = Some s'"
    by (auto split: option.splits)
  from Cons.IH [OF r step_status_ok [OF s1 Cons.prems(2)]] show ?case .
qed

lemma initial_status_ok: "status_ok initial"
  by (simp add: status_ok_def initial_def)

text \<open>
  Claim C2, as the code has it. The stored status of a job takes a value among
  \<open>running\<close>, \<open>completed\<close> and \<open>cancelled\<close>; there is no \<open>failed\<close>. It is
  \<open>running\<close> when the job is created. A step leaves it as it is or changes it from
  \<open>running\<close> to a terminal status, so a terminal status never changes again. A job
  whose task ended with an exception is reported by \<open>_check_job_status\<close> with the
  status \<open>completed\<close>, the exception's string under \<open>error\<close>, and no results.
\<close>

theorem stored_status_lifecycle:
  "(run initial evs = Some s \<and> map_of (job_registry s) j = Some job \<longrightarrow>
      status job = ''running'' \<or> status job = ''completed'' \<or> status job = ''cancelled'') \<and>
   (step s (Launch name j now async_map rf) = Some s' \<longrightarrow>
      (\<exists>job'. map_of (job_registry s') j = Some job' \<and> status job' = ''running'')) \<and>
   (run initial evs = Some s \<and> step s ev = Some s' \<and> map_of (job_registry s) j = Some job \<longrightarrow>
      (\<exists>job'. map_of (job_registry s') j = Some job' \<and>
         (status job' = status job \<or>
          (status job = ''running'' \<and>
           (status job' = ''completed'' \<or> status job' = ''cancelled''))))) \<and>
   (map_of reg j = Some job \<and> runner_progress (runner job) = Some pd \<and>
    task_state (task (runner job)) = Raised e \<longrightarrow>
      (\<exists>r. check_job_status reg j = Inr (ResultInfo r) \<and> ri_status r = ''completed'' \<and>
           ri_error r = Some e \<and> ri_results r = None))"
proof (intro conjI impI)
  assume "run initial evs = Some s \<and> map_of (job_registry s) j = Some job"
  with run_status_ok [OF _ initial_status_ok, of evs s]
  show "status job = ''running'' \<or> status job = ''completed'' \<or> status job = ''cancelled''"
    unfolding status_ok_def by blast
next
  assume "step s (Launch name j now async_map rf) = Some s'"
  then show "\<exists>job'. map_of (job_registry s') j = Some job' \<and> status job' = ''running''"
    by (rule step_launch_running)
next
  assume a: "run initial evs = Some s \<and> step s ev = Some s' \<and>
    map_of (job_registry s) j = Some job"
  with run_status_ok [OF _ initial_status_ok, of evs s]
  have old: "status job = ''running'' \<or> status job = ''cancelled''"
    unfolding status_ok_def by blast
  from a step_status [of s ev s' j job]
  obtain job' where j': "map_of (job_registry s') j = Some job'"
    and st: "status job' = status job \<or> (ev = Cancel j \<and> status job' = ''cancelled'')"
    by blast
  from old st have "status job' = status job \<or>
      (status job = ''running'' \<and> (status job' = ''completed'' \<or> status job' = ''cancelled''))"
    by auto
  with j' show "\<exists>job'. map_of (job_registry s') j = Some job' \<and>
         (status job' = status job \<or>
          (status job = ''running'' \<and>
           (status job' = ''completed'' \<or> status job' = ''cancelled'')))"
    by blast
next
  assume a: "map_of reg j = Some job \<and> runner_progress (runner job) = Some pd \<and>
    task_state (task (runner job)) = Raised e"
  then have "\<exists>r. check_job_status reg j = Inr (ResultInfo r) \<and> ri_results r = None \<and>
             ri_error r = Some e \<and> ri_status r = ''completed''"
    by (intro check_raised) auto
  then show "\<exists>r. check_job_status reg j = Inr (ResultInfo r) \<and> ri_status r = ''completed'' \<and>
           ri_error r = Some e \<and> ri_results r = None"
    by blast
qed

lemma run_launch_j1:
  "run initial [launch_j1]
     = Some \<lparr> job_registry = [(''j1'', job_j1 ''running'' \<lparr> task_state = Pending, must_cancel = False \<rparr>)],
              ctx_info = launch_info \<rparr>"
  by (simp add: launch_j1_def pending_runner_def initial_def execute_pipeline_async_def
      repr_name_def or_else_def DEFAULT_PIPELINE_NAME_def job_j1_def launch_info_def Let_def)

lemma step_cancel_j1:
  "step \<lparr> job_registry = [(''j1'', job_j1 ''running'' \<lparr> task_state = Pending, must_cancel = False \<rparr>)],
          ctx_info = launch_info \<rparr> (Cancel ''j1'')
     = Some \<lparr> job_registry = [(''j1'', job_j1 ''cancelled'' \<lparr> task_state = Pending, must_cancel = True \<rparr>)],
              ctx_info = launch_info @ [''Cancelled job j1''] \<rparr>"
  by (simp add: cancel_job_def cancel_def task_done_def job_j1_def Let_def)

lemma check_errored_j1:
  "check_job_status
     [(''j1'', job_j1 ''running'' \<lparr> task_state = Raised ''boom'', must_cancel = False \<rparr>)] ''j1''
   = Inr (ResultInfo
       \<lparr> ri_job_id = ''j1'', ri_pipeline_name = ''Unnamed Pipeline'', ri_status = ''completed'',
         ri_progress = [], ri_run_folder = ''runs/job_j1'',
         ri_started_at = ''2024-05-01T10:00:00+00:00'', ri_error = Some ''boom'',
         ri_results = None \<rparr>)"
  by (simp add: check_job_status_def job_j1_def task_done_def exception_def Let_def)

theorem stored_status_lifecycle_witness:
  "run initial [launch_j1]
     = Some \<lparr> job_registry = [(''j1'', job_j1 ''running'' \<lparr> task_state = Pending, must_cancel = False \<rparr>)],
              ctx_info = launch_info \<rparr> \<and>
   step initial launch_j1
     = Some \<lparr> job_registry = [(''j1'', job_j1 ''running'' \<lparr> task_state = Pending, must_cancel = False \<rparr>)],
              ctx_info = launch_info \<rparr> \<and>
   step \<lparr> job_registry = [(''j1'', job_j1 ''running'' \<lparr> task_state = Pending, must_cancel = False \<rparr>)],
          ctx_info = launch_info \<rparr> (Cancel ''j1'')
     = Some \<lparr> job_registry = [(''j1'', job_j1 ''cancelled'' \<lparr> task_state = Pending, must_cancel = True \<rparr>)],
              ctx_info = launch_info @ [''Cancelled job j1''] \<rparr> \<and>
   (status (job_j1 ''running'' \<lparr> task_state = Pending, must_cancel = False \<rparr>) = ''running'' \<or>
    status (job_j1 ''running'' \<lparr> task_state = Pending, must_cancel = False \<rparr>) = ''completed'' \<or>
    status (job_j1 ''running'' \<lparr> task_state = Pending, must_cancel = False \<rparr>) = ''cancelled'') \<and>
   (status (job_j1 ''cancelled'' \<lparr> task_state = Pending, must_cancel = True \<rparr>)
      = status (job_j1 ''running'' \<lparr> task_state = Pending, must_cancel = False \<rparr>) \<or>
    status (job_j1 ''running'' \<lparr> task_state = Pending, must_cancel = False \<rparr>) = ''running'' \<and>
    (status (job_j1 ''cancelled'' \<lparr> task_state = Pending, must_cancel = True \<rparr>) = ''completed'' \<or>
     status (job_j1 ''cancelled'' \<lparr> task_state = Pending, must_cancel = True \<rparr>) = ''cancelled'')) \<and>
   map_of [(''j1'', job_j1 ''running'' \<lparr> task_state = Raised ''boom'', must_cancel = False \<rparr>)] ''j1''
     = Some (job_j1 ''running'' \<lparr> task_state = Raised ''boom'', must_cancel = False \<rparr>) \<and>
   check_job_status
     [(''j1'', job_j1 ''running'' \<lparr> task_state = Raised ''boom'', must_cancel = False \<rparr>)] ''j1''
   = Inr (ResultInfo
       \<lparr> ri_job_id = ''j1'', ri_pipeline_name = ''Unnamed Pipeline'', ri_status = ''completed'',
         ri_progress = [], ri_run_folder = ''runs/job_j1'',
         ri_started_at = ''2024-05-01T10:00:00+00:00'', ri_error = Some ''boom'',
         ri_results = None \<rparr>)"
proof -
  let ?j0 = "job_j1 ''running'' \<lparr> task_state = Pending, must_cancel = False \<rparr>"
  let ?j1 = "job_j1 ''cancelled'' \<lparr> task_state = Pending, must_cancel = True \<rparr>"
  let ?s1 = "\<lparr> job_registry = [(''j1'', ?j0)], ctx_info = launch_info \<rparr>"
  let ?s2 = "\<lparr> job_registry = [(''j1'', ?j1)],
              ctx_info = launch_info @ [''Cancelled job j1''] \<rparr>"
  let ?jr = "job_j1 ''running'' \<lparr> task_state = Raised ''boom'', must_cancel = False \<rparr>"
  note r1 = run_launch_j1
  from r1 have l1: "step initial launch_j1 = Some ?s1"
    by (simp split: option.splits)
  note c1 = step_cancel_j1
  have m1: "map_of (job_registry ?s1) ''j1'' = Some ?j0" by simp
  have m2: "map_of (job_registry ?s2) ''j1'' = Some ?j1" by simp
  have m3: "map_of [(''j1'', ?jr)] ''j1'' = Some ?jr" by simp
  have p3: "runner_progress (runner ?jr) = Some []" by (simp add: job_j1_def)
  have t3: "task_state (task (runner ?jr)) = Raised ''boom''" by (simp add: job_j1_def)
  note a = stored_status_lifecycle [of "[launch_j1]" ?s1 "''j1''" ?j0 None
      "''2024-05-01T10:00:00+00:00''" pending_runner None ?s2 "Cancel ''j1''" "[(''j1'', ?jr)]"
      "[]" "''boom''"]
  from a r1 m1 have reach: "status ?j0 = ''running'' \<or> status ?j0 = ''completed'' \<or>
      status ?j0 = ''cancelled''"
    by blast
  from a r1 c1 m1
  have "\<exists>job'. map_of (job_registry ?s2) ''j1'' = Some job' \<and>
         (status job' = status ?j0 \<or>
          (status ?j0 = ''running'' \<and> (status job' = ''completed'' \<or> status job' = ''cancelled'')))"
    by blast
  with m2 have trans: "status ?j1 = status ?j0 \<or>
      status ?j0 = ''running'' \<and> (status ?j1 = ''completed'' \<or> status ?j1 = ''cancelled'')"
    by auto
  from stored_status_lifecycle [of "[]" initial "''j1''" ?jr None
      "''2024-05-01T10:00:00+00:00''" pending_runner None ?s1 launch_j1 "[(''j1'', ?jr)]"
      "[]" "''boom''"] m3 p3 t3
  have ex: "\<exists>r. check_job_status [(''j1'', ?jr)] ''j1'' = Inr (ResultInfo r) \<and>
      ri_status r = ''completed'' \<and> ri_error r = Some ''boom'' \<and> ri_results r = None"
    by blast
  from ex have err: "check_job_status [(''j1'', ?jr)] ''j1''
   = Inr (ResultInfo
       \<lparr> ri_job_id = ''j1'', ri_pipeline_name = ''Unnamed Pipeline'', ri_status = ''completed'',
         ri_progress = [], ri_run_folder = ''runs/job_j1'',
         ri_started_at = ''2024-05-01T10:00:00+00:00'', ri_error = Some ''boom'',
         ri_results = None \<rparr>)"
    by (simp add: check_errored_j1)
  from r1 l1 c1 reach trans m3 err show ?thesis by blast
qed

text \<open>
  Claim C2 as stated fails: after a launch and the task ending with an exception,
  \<open>_check_job_status\<close> reports \<open>completed\<close> and \<open>_list_jobs\<close> reports \<open>running\<close>;
  neither reports \<open>failed\<close>.
\<close>

theorem errored_job_not_failed:
  "status_views [launch_j1, TaskEnds ''j1'' (Raised ''boom'')] ''j1''
     = (Some ''completed'', Some ''running'') \<and>
   fst (status_views [launch_j1, TaskEnds ''j1'' (Raised ''boom'')] ''j1'') \<noteq> Some ''failed'' \<and>
   snd (status_views [launch_j1, TaskEnds ''j1'' (Raised ''boom'')] ''j1'') \<noteq> Some ''failed''"
  by (simp add: status_views_def launch_j1_def pending_runner_def initial_def
      execute_pipeline_async_def repr_name_def cancel_job_def cancel_def task_done_def
      set_task_state_def or_else_def DEFAULT_PIPELINE_NAME_def checked_status_def
      listed_status_def check_job_status_def list_jobs_def exception_def result_def Let_def)

subsection \<open>Cancelled jobs\<close>

text \<open>
  Claim C10. For a registered job whose task is done, the response of
  \<open>_check_job_status\<close> should carry the results, or else the exception as a string
  under \<open>error\<close>. The source reaches neither for a job that \<open>_cancel_job\<close> cancelled:
  once the task has ended as cancelled, \<open>task.exception()\<close> raises \<open>CancelledError\<close>
  inside \<open>_check_job_status\<close>, and the caller gets the exception instead of a
  response.
\<close>

theorem check_job_status_raises_when_cancelled:
  "response_after [launch_j1, Cancel ''j1'', TaskEnds ''j1'' Cancelled] ''j1''
     = Some (Inl CancelledError)"
  by (simp add: response_after_def launch_j1_def pending_runner_def initial_def
      execute_pipeline_async_def repr_name_def cancel_job_def cancel_def task_done_def
      set_task_state_def or_else_def DEFAULT_PIPELINE_NAME_def check_job_status_def
      exception_def result_def Let_def)
















end
